theory Spec2Isabelle
  imports Complex_Main "HOL-Library.Word"
begin

section \<open>MediReminder: the reminder store and checker of \<^verbatim>\<open>src/App.tsx\<close>\<close>

text \<open>
  The application is one React component. Its state is the list of medications, the
  creation form, the flag that shows the form and the list of pending banner texts; the
  handlers and the periodic checker replace that state. The embedding passes the state
  explicitly: every handler is a function from the state before to the state after.

  Modelling conventions.
  \<^item> A JavaScript string is a list of 16-bit code units. Literals of the source are written
    with \<open>lit\<close>, which maps an ASCII literal to its code units.
  \<^item> A reading of the device clock (\<^verbatim>\<open>new Date()\<close>) is a record of the four
    observations the source makes of it: \<^verbatim>\<open>Date.now()\<close>, \<^verbatim>\<open>getHours()\<close>,
    \<^verbatim>\<open>getMinutes()\<close> and \<^verbatim>\<open>toLocaleDateString()\<close>. One handler invocation
    sees one reading, although the source constructs a fresh \<^verbatim>\<open>Date\<close> for each
    medication inside the checker.
  \<^item> A state updater passed to \<^verbatim>\<open>setMedications\<close> or \<^verbatim>\<open>setNotifications\<close>
    is applied once, in the order it was queued, to the latest state; the
    \<^verbatim>\<open>medications\<close> value captured by a handler is that same latest state.
  \<^item> The desktop notification and the permission request of the checker touch no
    component state and are left out.
  \<^item> Names are those of the source, with three exceptions forced by the logic: the
    field \<^verbatim>\<open>id\<close> is \<open>med_id\<close>, \<^verbatim>\<open>includes\<close> is \<open>includesStr\<close> and
    \<^verbatim>\<open>Number\<close> is \<open>toNumber\<close>; \<^verbatim>\<open>Date.now()\<close> is the field \<open>now_ms\<close> of
    a clock reading.
\<close>

subsection \<open>Strings\<close>

type_synonym jschar = "16 word"
type_synonym jsstring = "jschar list"

definition lit :: "string \<Rightarrow> jsstring" where
  "lit s = map of_char s"

text \<open>\<^verbatim>\<open>haystack.startsWith(needle)\<close>, used to define \<^verbatim>\<open>includes\<close>.\<close>

fun startsWith :: "'a list \<Rightarrow> 'a list \<Rightarrow> bool" where
  "startsWith hay [] = True"
| "startsWith [] (n # ns) = False"
| "startsWith (h # hs) (n # ns) = (h = n \<and> startsWith hs ns)"

text \<open>\<^verbatim>\<open>haystack.includes(needle)\<close>: the needle occurs at some position of the haystack.\<close>

fun includesStr :: "'a list \<Rightarrow> 'a list \<Rightarrow> bool" where
  "includesStr [] needle = (needle = [])"
| "includesStr (h # hs) needle = (startsWith (h # hs) needle \<or> includesStr hs needle)"

text \<open>\<^verbatim>\<open>s.split(sep)\<close> for a separator of one code unit: never the empty array.\<close>

fun split :: "'a \<Rightarrow> 'a list \<Rightarrow> 'a list list" where
  "split sep [] = [[]]"
| "split sep (c # cs) =
     (if c = sep then [] # split sep cs
      else (case split sep cs of
              [] \<Rightarrow> [[c]]
            | p # ps \<Rightarrow> (c # p) # ps))"

subsection \<open>Numbers\<close>

text \<open>
  A JavaScript number is a double: not-a-number, an infinity, or a finite value, kept
  here as the rational it denotes. The sign of zero is not kept, since the component
  only compares numbers. Every comparison with \<open>NaN\<close> is false.
\<close>

datatype jsnum = NaN | NegInfinity | Finite rat | PosInfinity

text \<open>
  Rounding a rational to the nearest double, ties to the even significand. With
  \<open>e\<close> the binary exponent of the magnitude, not below \<open>-1022\<close>, the doubles of
  that binade are the multiples of \<open>2^(e-52)\<close>; a magnitude that rounds to
  \<open>2^1024\<close> or more becomes an infinity.
\<close>

function bitLength :: "int \<Rightarrow> int" where
  "bitLength n = (if n \<le> 0 then 0 else 1 + bitLength (n div 2))"
  by pat_completeness auto
termination
  by (relation "measure nat") auto

declare bitLength.simps [simp del]

function pow2 :: "int \<Rightarrow> int" where
  "pow2 k = (if k \<le> 0 then 1 else 2 * pow2 (k - 1))"
  by pat_completeness auto
termination
  by (relation "measure nat") auto

declare pow2.simps [simp del]

function pow10 :: "int \<Rightarrow> int" where
  "pow10 k = (if k \<le> 0 then 1 else 10 * pow10 (k - 1))"
  by pat_completeness auto
termination
  by (relation "measure nat") auto

declare pow10.simps [simp del]

text \<open>The \<open>e\<close> with \<open>2^e \<le> a/b < 2^(e+1)\<close>, for positive \<open>a\<close> and \<open>b\<close>.\<close>

definition floorLog2 :: "int \<Rightarrow> int \<Rightarrow> int" where
  "floorLog2 a b =
     (let d = bitLength a - bitLength b
      in if (if 0 \<le> d then b * pow2 d \<le> a else b \<le> a * pow2 (- d)) then d else d - 1)"

definition roundDouble :: "rat \<Rightarrow> jsnum" where
  "roundDouble q =
     (if q = 0 then Finite 0
      else
        (let (a, b) = quotient_of \<bar>q\<bar>;
             e = max (floorLog2 a b) (- 1022);
             num = (if e \<le> 52 then a * pow2 (52 - e) else a);
             den = (if e \<le> 52 then b else b * pow2 (e - 52));
             k = num div den;
             r = num mod den;
             m = (if 2 * r < den then k
                  else if den < 2 * r then k + 1
                  else if even k then k else k + 1);
             mag = (if e \<le> 52 then of_int m / of_int (pow2 (52 - e))
                    else of_int (m * pow2 (e - 52)))
         in if 1023 < e \<or> (e = 1023 \<and> 9007199254740992 \<le> m)
            then (if 0 < q then PosInfinity else NegInfinity)
            else Finite (if 0 < q then mag else - mag)))"

text \<open>
  The operators \<^verbatim>\<open>-x\<close>, \<^verbatim>\<open>x * y\<close>, \<^verbatim>\<open>x + y\<close> and \<^verbatim>\<open>x >= y\<close> on doubles: the
  exact result rounded, with the rules for \<open>NaN\<close> and the infinities.
\<close>

fun num_negate :: "jsnum \<Rightarrow> jsnum" where
  "num_negate NaN = NaN"
| "num_negate NegInfinity = PosInfinity"
| "num_negate PosInfinity = NegInfinity"
| "num_negate (Finite q) = Finite (- q)"

fun num_times :: "jsnum \<Rightarrow> jsnum \<Rightarrow> jsnum" where
  "num_times NaN y = NaN"
| "num_times x NaN = NaN"
| "num_times (Finite a) (Finite b) = roundDouble (a * b)"
| "num_times (Finite a) y = (if a = 0 then NaN else if 0 < a then y else num_negate y)"
| "num_times x (Finite b) = (if b = 0 then NaN else if 0 < b then x else num_negate x)"
| "num_times x y = (if x = y then PosInfinity else NegInfinity)"

fun num_plus :: "jsnum \<Rightarrow> jsnum \<Rightarrow> jsnum" where
  "num_plus NaN y = NaN"
| "num_plus x NaN = NaN"
| "num_plus (Finite a) (Finite b) = roundDouble (a + b)"
| "num_plus (Finite a) y = y"
| "num_plus x (Finite b) = x"
| "num_plus x y = (if x = y then x else NaN)"

fun num_ge :: "jsnum \<Rightarrow> jsnum \<Rightarrow> bool" where
  "num_ge NaN y = False"
| "num_ge x NaN = False"
| "num_ge PosInfinity y = True"
| "num_ge x NegInfinity = True"
| "num_ge (Finite a) (Finite b) = (b \<le> a)"
| "num_ge x y = False"

text \<open>
  \<^verbatim>\<open>Number(s)\<close> on a string. White space and line terminators are trimmed at both
  ends; the empty string is 0. What is left is a binary, octal or hexadecimal integer
  with its prefix, or a decimal literal: an optional sign, then \<^verbatim>\<open>Infinity\<close> or
  digits with an optional fraction and an optional exponent. The mathematical value is
  rounded to a double; anything else is \<open>NaN\<close>. (For a literal of more than twenty
  significant digits the language leaves the last step to the engine; the model takes
  the correctly rounded value, as the engines do.)
\<close>

definition isDigit :: "jschar \<Rightarrow> bool" where
  "isDigit c = (0x30 \<le> c \<and> c \<le> 0x39)"

definition digitsValue :: "jsstring \<Rightarrow> int" where
  "digitsValue s = foldl (\<lambda>a c. a * 10 + (uint c - 48)) 0 s"

definition isStrWhiteSpace :: "jschar \<Rightarrow> bool" where
  "isStrWhiteSpace c =
     (c = 0x09 \<or> c = 0x0A \<or> c = 0x0B \<or> c = 0x0C \<or> c = 0x0D \<or> c = 0x20 \<or> c = 0xA0
      \<or> c = 0x1680 \<or> (0x2000 \<le> c \<and> c \<le> 0x200A) \<or> c = 0x2028 \<or> c = 0x2029
      \<or> c = 0x202F \<or> c = 0x205F \<or> c = 0x3000 \<or> c = 0xFEFF)"

definition trimString :: "jsstring \<Rightarrow> jsstring" where
  "trimString s = rev (dropWhile isStrWhiteSpace (rev (dropWhile isStrWhiteSpace s)))"

definition radixDigit :: "jschar \<Rightarrow> int option" where
  "radixDigit c =
     (let n = uint c
      in if 0x30 \<le> n \<and> n \<le> 0x39 then Some (n - 0x30)
         else if 0x61 \<le> n \<and> n \<le> 0x66 then Some (n - 0x57)
         else if 0x41 \<le> n \<and> n \<le> 0x46 then Some (n - 0x37)
         else None)"

definition radixValue :: "int \<Rightarrow> jsstring \<Rightarrow> int option" where
  "radixValue radix ds =
     (if ds \<noteq> [] \<and> list_all (\<lambda>c. case radixDigit c of None \<Rightarrow> False | Some v \<Rightarrow> v < radix) ds
      then Some (foldl (\<lambda>a c. a * radix + the (radixDigit c)) 0 ds)
      else None)"

definition nonDecimalLiteral :: "jsstring \<Rightarrow> int option" where
  "nonDecimalLiteral s =
     (case s of
        z # p # ds \<Rightarrow>
          if z \<noteq> 0x30 then None
          else if p = 0x78 \<or> p = 0x58 then radixValue 16 ds
          else if p = 0x6F \<or> p = 0x4F then radixValue 8 ds
          else if p = 0x62 \<or> p = 0x42 then radixValue 2 ds
          else None
      | _ \<Rightarrow> None)"

definition exponentPart :: "jsstring \<Rightarrow> int option" where
  "exponentPart s =
     (case s of
        [] \<Rightarrow> Some 0
      | c # r \<Rightarrow>
          if c = 0x65 \<or> c = 0x45 then
            (case r of
               [] \<Rightarrow> None
             | g # ds \<Rightarrow>
                 if g = 0x2B then (if ds \<noteq> [] \<and> list_all isDigit ds then Some (digitsValue ds) else None)
                 else if g = 0x2D then (if ds \<noteq> [] \<and> list_all isDigit ds then Some (- digitsValue ds) else None)
                 else if list_all isDigit r then Some (digitsValue r)
                 else None)
          else None)"

definition scaleByPowerOfTen :: "int \<Rightarrow> int \<Rightarrow> rat" where
  "scaleByPowerOfTen m k = (if 0 \<le> k then of_int (m * pow10 k) else of_int m / of_int (pow10 (- k)))"

definition unsignedDecimal :: "jsstring \<Rightarrow> jsnum" where
  "unsignedDecimal s =
     (if s = lit ''Infinity'' then PosInfinity
      else
        (let ip = takeWhile isDigit s;
             r1 = dropWhile isDigit s;
             dot = (r1 \<noteq> [] \<and> hd r1 = 0x2E);
             fp = (if dot then takeWhile isDigit (tl r1) else []);
             r2 = (if dot then dropWhile isDigit (tl r1) else r1)
         in if ip = [] \<and> fp = [] then NaN
            else (case exponentPart r2 of
                    None \<Rightarrow> NaN
                  | Some ex \<Rightarrow>
                      roundDouble (scaleByPowerOfTen (digitsValue (ip @ fp)) (ex - int (length fp))))))"

definition toNumber :: "jsstring \<Rightarrow> jsnum" where
  "toNumber s =
     (let t = trimString s
      in case t of
           [] \<Rightarrow> Finite 0
         | c # r \<Rightarrow>
             (case nonDecimalLiteral t of
                Some n \<Rightarrow> roundDouble (of_int n)
              | None \<Rightarrow>
                  if c = 0x2B then unsignedDecimal r
                  else if c = 0x2D then num_negate (unsignedDecimal r)
                  else unsignedDecimal t))"

subsection \<open>The data model (lines 5 to 29)\<close>

record Medication =
  med_id :: jsstring
  name :: jsstring
  dosage :: jsstring
  frequency :: jsstring
  time :: jsstring
  lastTaken :: "jsstring option"
  missed :: bool

record NewMedication =
  form_name :: jsstring
  form_dosage :: jsstring
  form_frequency :: jsstring
  form_time :: jsstring

record AppState =
  medications :: "Medication list"
  newMedication :: NewMedication
  showForm :: bool
  notifications :: "jsstring list"

record Date =
  now_ms :: int
  getHours :: nat
  getMinutes :: nat
  toLocaleDateString :: jsstring

text \<open>The initial and the reset value of the form (lines 21 to 26 and 108 to 113).\<close>

definition emptyForm :: NewMedication where
  "emptyForm =
     \<lparr>form_name = [], form_dosage = [], form_frequency = lit ''daily'',
      form_time = lit ''08:00''\<rparr>"

subsection \<open>The periodic checker (lines 38 to 71)\<close>

text \<open>
  Line 40: \<^verbatim>\<open>now.getHours() * 60 + now.getMinutes()\<close>. The hour is at most 23 and
  the minute at most 59, so this arithmetic on doubles is exact.
\<close>

definition currentTime :: "Date \<Rightarrow> jsnum" where
  "currentTime now = Finite (of_int (int (getHours now) * 60 + int (getMinutes now)))"

text \<open>
  Lines 44 and 45: the time string is split at the colons, each piece converted with
  \<^verbatim>\<open>Number\<close>, and the first two pieces are combined. With fewer than two pieces
  \<^verbatim>\<open>minutes\<close> is \<^verbatim>\<open>undefined\<close> and the sum is \<open>NaN\<close>.
\<close>

definition medicationTime :: "Medication \<Rightarrow> jsnum" where
  "medicationTime med =
     (case map toNumber (split 0x3A (time med)) of
        hours # minutes # _ \<Rightarrow> num_plus (num_times hours (Finite 60)) minutes
      | _ \<Rightarrow> NaN)"

text \<open>Lines 54 and 59: the template \<^verbatim>\<open>`Time to take ${med.name} (${med.dosage})`\<close>.\<close>

definition reminderText :: "Medication \<Rightarrow> jsstring" where
  "reminderText med = lit ''Time to take '' @ name med @ lit '' ('' @ dosage med @ lit '')''"

text \<open>
  The callback of \<^verbatim>\<open>prevMeds.map\<close> (lines 43 to 69). It returns the medication of
  the new list; the banner list is threaded through, since the callback queues an
  append to it.
\<close>

definition checkMedication :: "Date \<Rightarrow> Medication \<Rightarrow> jsstring list \<Rightarrow> Medication \<times> jsstring list" where
  "checkMedication now med notes =
     (let medTime = medicationTime med;
          today = toLocaleDateString now;
          shouldBeTaken = num_ge (currentTime now) medTime;
          takenToday = (lastTaken med = Some today)
      in if shouldBeTaken \<and> \<not> takenToday \<and> \<not> missed med
         then (med\<lparr>missed := True\<rparr>, notes @ [reminderText med])
         else (med, notes))"

text \<open>\<^verbatim>\<open>prevMeds.map\<close> with that callback: left to right over the list.\<close>

fun checkAll :: "Date \<Rightarrow> Medication list \<Rightarrow> jsstring list \<Rightarrow> Medication list \<times> jsstring list" where
  "checkAll now [] notes = ([], notes)"
| "checkAll now (med # meds) notes =
     (case checkMedication now med notes of
        (med', notes') \<Rightarrow>
          (case checkAll now meds notes' of
             (meds', notes'') \<Rightarrow> (med' # meds', notes'')))"

definition checkMedications :: "Date \<Rightarrow> AppState \<Rightarrow> AppState" where
  "checkMedications now st =
     (case checkAll now (medications st) (notifications st) of
        (meds', notes') \<Rightarrow> st\<lparr>medications := meds', notifications := notes'\<rparr>)"

subsection \<open>The handlers (lines 92 to 143)\<close>

datatype error = ValidationError | SyntaxError

text \<open>
  \<^verbatim>\<open>Number.prototype.toString\<close> on an integer: its decimal digits, after a minus
  sign when it is negative. JavaScript writes every digit of an integer below
  \<open>10^21\<close>, and a clock reading is far below that.
\<close>

function digitsOf :: "int \<Rightarrow> jsstring" where
  "digitsOf n =
     (if n < 10 then [word_of_int (48 + n)]
      else digitsOf (n div 10) @ [word_of_int (48 + n mod 10)])"
  by pat_completeness auto
termination
  by (relation "measure nat") auto

declare digitsOf.simps [simp del]

definition toString :: "int \<Rightarrow> jsstring" where
  "toString i = (if i < 0 then 0x2D # digitsOf (- i) else digitsOf i)"

text \<open>
  \<^verbatim>\<open>handleAddMedication\<close> (lines 92 to 115). An empty string is falsy, so the guard
  of line 95 rejects an empty name or dosage: the handler alerts and returns, and the
  state stays as it was. Otherwise the object of lines 100 to 105, \<open>newMed\<close>, is
  appended, the form is reset and hidden. The outcome is returned beside the state.
\<close>

definition newMed :: "Date \<Rightarrow> NewMedication \<Rightarrow> Medication" where
  "newMed now form =
     \<lparr>med_id = toString (now_ms now),
      name = form_name form,
      dosage = form_dosage form,
      frequency = form_frequency form,
      time = form_time form,
      lastTaken = None,
      missed = False\<rparr>"

definition handleAddMedication :: "Date \<Rightarrow> AppState \<Rightarrow> (error + Medication) \<times> AppState" where
  "handleAddMedication now st =
     (let form = newMedication st
      in if form_name form = [] \<or> form_dosage form = []
         then (Inl ValidationError, st)
         else (Inr (newMed now form),
               st\<lparr>medications := medications st @ [newMed now form],
                  newMedication := emptyForm,
                  showForm := False\<rparr>))"

text \<open>\<^verbatim>\<open>handleDeleteMedication\<close> (lines 117 to 119).\<close>

definition handleDeleteMedication :: "jsstring \<Rightarrow> AppState \<Rightarrow> AppState" where
  "handleDeleteMedication i st =
     st\<lparr>medications := filter (\<lambda>med. med_id med \<noteq> i) (medications st)\<rparr>"

text \<open>
  \<^verbatim>\<open>handleTakeMedication\<close> (lines 121 to 139). Every entry with the id is marked
  taken; \<^verbatim>\<open>find\<close> yields the first entry with the id, and only when there is one
  are the banners filtered, by that entry's name.
\<close>

definition handleTakeMedication :: "Date \<Rightarrow> jsstring \<Rightarrow> AppState \<Rightarrow> AppState" where
  "handleTakeMedication now i st =
     (let today = toLocaleDateString now;
          meds' = map (\<lambda>med. if med_id med = i
                              then med\<lparr>lastTaken := Some today, missed := False\<rparr>
                              else med) (medications st);
          notes' = (case find (\<lambda>med. med_id med = i) (medications st) of
                      Some medication \<Rightarrow>
                        filter (\<lambda>note. \<not> includesStr note (name medication)) (notifications st)
                    | None \<Rightarrow> notifications st)
      in st\<lparr>medications := meds', notifications := notes'\<rparr>)"

text \<open>\<^verbatim>\<open>dismissNotification\<close> (lines 141 to 143): the banner at the index is dropped.\<close>

definition dismissNotification :: "nat \<Rightarrow> AppState \<Rightarrow> AppState" where
  "dismissNotification index st =
     st\<lparr>notifications := map snd (filter (\<lambda>(k, note). k \<noteq> index)
                                    (zip [0 ..< length (notifications st)] (notifications st)))\<rparr>"

text \<open>
  \<^verbatim>\<open>handleInputChange\<close> (lines 87 to 90): the form field named by the input that
  fired the event takes the input's value. The form has four inputs, named after the
  four fields.
\<close>

datatype formField = FieldName | FieldDosage | FieldFrequency | FieldTime

fun handleInputChange :: "formField \<Rightarrow> jsstring \<Rightarrow> AppState \<Rightarrow> AppState" where
  "handleInputChange FieldName v st = st\<lparr>newMedication := (newMedication st)\<lparr>form_name := v\<rparr>\<rparr>"
| "handleInputChange FieldDosage v st = st\<lparr>newMedication := (newMedication st)\<lparr>form_dosage := v\<rparr>\<rparr>"
| "handleInputChange FieldFrequency v st = st\<lparr>newMedication := (newMedication st)\<lparr>form_frequency := v\<rparr>\<rparr>"
| "handleInputChange FieldTime v st = st\<lparr>newMedication := (newMedication st)\<lparr>form_time := v\<rparr>\<rparr>"

subsection \<open>JSON (the platform's \<^verbatim>\<open>JSON.stringify\<close> and \<^verbatim>\<open>JSON.parse\<close>)\<close>

text \<open>
  The values JSON text denotes. An object is the list of its members in the order of the
  text; a number keeps the numeral as written, since no field of a medication is a
  number and the component never computes with one.
\<close>

datatype json =
    JNull
  | JBool bool
  | JNumber jsstring
  | JString jsstring
  | JArray "json list"
  | JObject "(jsstring \<times> json) list"

subsubsection \<open>Serialising\<close>

text \<open>
  \<^verbatim>\<open>JSON.stringify\<close> quotes a string code point by code point: the seven short
  escapes, \<^verbatim>\<open>\uXXXX\<close> with lower-case digits for the other control characters and
  for a surrogate that is not part of a pair, and every other code unit as it is.
\<close>

definition hexDigit :: "int \<Rightarrow> jschar" where
  "hexDigit n = word_of_int (if n < 10 then 0x30 + n else 0x57 + n)"

definition unicodeEscape :: "jschar \<Rightarrow> jsstring" where
  "unicodeEscape c =
     (let n = uint c
      in [0x5C, 0x75, hexDigit (n div 4096), hexDigit (n div 256 mod 16),
          hexDigit (n div 16 mod 16), hexDigit (n mod 16)])"

definition isLeadSurrogate :: "jschar \<Rightarrow> bool" where
  "isLeadSurrogate c = (0xD800 \<le> c \<and> c \<le> 0xDBFF)"

definition isTrailSurrogate :: "jschar \<Rightarrow> bool" where
  "isTrailSurrogate c = (0xDC00 \<le> c \<and> c \<le> 0xDFFF)"

definition quoteUnit :: "jschar \<Rightarrow> jsstring" where
  "quoteUnit c =
     (if c = 0x08 then [0x5C, 0x62]
      else if c = 0x09 then [0x5C, 0x74]
      else if c = 0x0A then [0x5C, 0x6E]
      else if c = 0x0C then [0x5C, 0x66]
      else if c = 0x0D then [0x5C, 0x72]
      else if c = 0x22 then [0x5C, 0x22]
      else if c = 0x5C then [0x5C, 0x5C]
      else if c < 0x20 \<or> isLeadSurrogate c \<or> isTrailSurrogate c then unicodeEscape c
      else [c])"

fun quoteBody :: "jsstring \<Rightarrow> jsstring" where
  "quoteBody [] = []"
| "quoteBody [c] = quoteUnit c"
| "quoteBody (c # d # cs) =
     (if isLeadSurrogate c \<and> isTrailSurrogate d then c # d # quoteBody cs
      else quoteUnit c @ quoteBody (d # cs))"

definition quoteJSONString :: "jsstring \<Rightarrow> jsstring" where
  "quoteJSONString s = 0x22 # quoteBody s @ [0x22]"

text \<open>\<^verbatim>\<open>parts.join(sep)\<close> for a separator of one code unit.\<close>

fun join :: "'a \<Rightarrow> 'a list list \<Rightarrow> 'a list" where
  "join sep [] = []"
| "join sep [x] = x"
| "join sep (x # y # ys) = x @ sep # join sep (y # ys)"

text \<open>
  No white space is written. Arrays and objects list their parts between brackets,
  separated by commas; a member is its quoted key, a colon and its value.
\<close>

fun stringify :: "json \<Rightarrow> jsstring" where
  "stringify JNull = lit ''null''"
| "stringify (JBool b) = (if b then lit ''true'' else lit ''false'')"
| "stringify (JNumber t) = t"
| "stringify (JString s) = quoteJSONString s"
| "stringify (JArray vs) = 0x5B # join 0x2C (map stringify vs) @ [0x5D]"
| "stringify (JObject ms) =
     0x7B # join 0x2C (map (\<lambda>(k, v). quoteJSONString k @ 0x3A # stringify v) ms) @ [0x7D]"

subsubsection \<open>Parsing\<close>

text \<open>
  The JSON grammar: white space is space, tab, line feed and carriage return; a string
  may hold any code unit from \<open>0x20\<close> on except the quote and the backslash, and
  the escapes \<^verbatim>\<open>\" \\ \/ \b \f \n \r \t \uXXXX\<close>; a number is an optional
  minus sign, an integer part without a leading zero, an optional fraction and an
  optional exponent. Every parser returns the value it read and the text after it, or
  \<open>None\<close> where \<^verbatim>\<open>JSON.parse\<close> throws a \<^verbatim>\<open>SyntaxError\<close>.
\<close>

definition isWhitespace :: "jschar \<Rightarrow> bool" where
  "isWhitespace c = (c = 0x20 \<or> c = 0x09 \<or> c = 0x0A \<or> c = 0x0D)"

definition skipWs :: "jsstring \<Rightarrow> jsstring" where
  "skipWs = dropWhile isWhitespace"

definition hexValue :: "jschar \<Rightarrow> int option" where
  "hexValue c =
     (let n = uint c
      in if 0x30 \<le> n \<and> n \<le> 0x39 then Some (n - 0x30)
         else if 0x61 \<le> n \<and> n \<le> 0x66 then Some (n - 0x57)
         else if 0x41 \<le> n \<and> n \<le> 0x46 then Some (n - 0x37)
         else None)"

definition hex4 :: "jschar \<Rightarrow> jschar \<Rightarrow> jschar \<Rightarrow> jschar \<Rightarrow> jschar option" where
  "hex4 a b c d =
     (case (hexValue a, hexValue b, hexValue c, hexValue d) of
        (Some x, Some y, Some z, Some w) \<Rightarrow>
          Some (word_of_int (4096 * x + 256 * y + 16 * z + w))
      | _ \<Rightarrow> None)"

definition escapeValue :: "jschar \<Rightarrow> jschar option" where
  "escapeValue e =
     (if e = 0x22 then Some 0x22
      else if e = 0x5C then Some 0x5C
      else if e = 0x2F then Some 0x2F
      else if e = 0x62 then Some 0x08
      else if e = 0x66 then Some 0x0C
      else if e = 0x6E then Some 0x0A
      else if e = 0x72 then Some 0x0D
      else if e = 0x74 then Some 0x09
      else None)"

definition consResult :: "'a \<Rightarrow> ('a list \<times> 'b) option \<Rightarrow> ('a list \<times> 'b) option" where
  "consResult x r = (case r of None \<Rightarrow> None | Some (xs, rest) \<Rightarrow> Some (x # xs, rest))"

text \<open>The characters of a string, after its opening quote, up to the closing quote.\<close>

fun parseChars :: "jsstring \<Rightarrow> (jsstring \<times> jsstring) option" where
  "parseChars [] = None"
| "parseChars (c # cs) =
     (if c = 0x22 then Some ([], cs)
      else if c = 0x5C then
        (case cs of
           [] \<Rightarrow> None
         | e # es \<Rightarrow>
             if e = 0x75 then
               (case es of
                  h1 # h2 # h3 # h4 # rest \<Rightarrow>
                    (case hex4 h1 h2 h3 h4 of
                       None \<Rightarrow> None
                     | Some u \<Rightarrow> consResult u (parseChars rest))
                | _ \<Rightarrow> None)
             else
               (case escapeValue e of
                  None \<Rightarrow> None
                | Some u \<Rightarrow> consResult u (parseChars es)))
      else if c < 0x20 then None
      else consResult c (parseChars cs))"

definition digits1 :: "jsstring \<Rightarrow> (jsstring \<times> jsstring) option" where
  "digits1 cs =
     (case takeWhile isDigit cs of
        [] \<Rightarrow> None
      | ds \<Rightarrow> Some (ds, dropWhile isDigit cs))"

definition parseInt :: "jsstring \<Rightarrow> (jsstring \<times> jsstring) option" where
  "parseInt cs =
     (case cs of
        [] \<Rightarrow> None
      | c # rest \<Rightarrow> if c = 0x30 then Some ([c], rest) else digits1 cs)"

definition parseFrac :: "jsstring \<Rightarrow> (jsstring \<times> jsstring) option" where
  "parseFrac cs =
     (case cs of
        [] \<Rightarrow> Some ([], cs)
      | c # rest \<Rightarrow>
          if c = 0x2E then
            (case digits1 rest of None \<Rightarrow> None | Some (ds, r) \<Rightarrow> Some (c # ds, r))
          else Some ([], cs))"

definition parseExp :: "jsstring \<Rightarrow> (jsstring \<times> jsstring) option" where
  "parseExp cs =
     (case cs of
        [] \<Rightarrow> Some ([], cs)
      | c # rest \<Rightarrow>
          if c = 0x65 \<or> c = 0x45 then
            (case rest of
               [] \<Rightarrow> None
             | s # rest' \<Rightarrow>
                 if s = 0x2B \<or> s = 0x2D then
                   (case digits1 rest' of None \<Rightarrow> None | Some (ds, r) \<Rightarrow> Some (c # s # ds, r))
                 else
                   (case digits1 rest of None \<Rightarrow> None | Some (ds, r) \<Rightarrow> Some (c # ds, r)))
          else Some ([], cs))"

definition parseNumber :: "jsstring \<Rightarrow> (jsstring \<times> jsstring) option" where
  "parseNumber cs =
     (let (sign, r0) = (case cs of c # rest \<Rightarrow> if c = 0x2D then ([c], rest) else ([], cs) | [] \<Rightarrow> ([], cs))
      in case parseInt r0 of
           None \<Rightarrow> None
         | Some (i, r1) \<Rightarrow>
             (case parseFrac r1 of
                None \<Rightarrow> None
              | Some (f, r2) \<Rightarrow>
                  (case parseExp r2 of
                     None \<Rightarrow> None
                   | Some (e, r3) \<Rightarrow> Some (sign @ i @ f @ e, r3))))"

definition parseLiteral :: "string \<Rightarrow> json \<Rightarrow> jsstring \<Rightarrow> (json \<times> jsstring) option" where
  "parseLiteral word v cs =
     (if startsWith cs (lit word) then Some (v, drop (length word) cs) else None)"

text \<open>
  Values nest, so the three mutually recursive parsers count down a bound on the number
  of nested calls. \<open>parseElements\<close> reads the elements of a non-empty array up to
  the closing bracket, \<open>parseMembers\<close> the members of a non-empty object up to the
  closing brace.
\<close>

fun parseValue :: "nat \<Rightarrow> jsstring \<Rightarrow> (json \<times> jsstring) option"
  and parseElements :: "nat \<Rightarrow> jsstring \<Rightarrow> (json list \<times> jsstring) option"
  and parseMembers :: "nat \<Rightarrow> jsstring \<Rightarrow> ((jsstring \<times> json) list \<times> jsstring) option"
where
  "parseValue 0 cs = None"
| "parseValue (Suc n) [] = None"
| "parseValue (Suc n) (c # rest) =
     (if c = 0x7B then
        (let r = skipWs rest
         in if startsWith r [0x7D] then Some (JObject [], tl r)
            else (case parseMembers n r of
                    None \<Rightarrow> None
                  | Some (ms, r') \<Rightarrow> Some (JObject ms, r')))
      else if c = 0x5B then
        (let r = skipWs rest
         in if startsWith r [0x5D] then Some (JArray [], tl r)
            else (case parseElements n r of
                    None \<Rightarrow> None
                  | Some (vs, r') \<Rightarrow> Some (JArray vs, r')))
      else if c = 0x22 then
        (case parseChars rest of
           None \<Rightarrow> None
         | Some (s, r) \<Rightarrow> Some (JString s, r))
      else if c = 0x74 then parseLiteral ''true'' (JBool True) (c # rest)
      else if c = 0x66 then parseLiteral ''false'' (JBool False) (c # rest)
      else if c = 0x6E then parseLiteral ''null'' JNull (c # rest)
      else (case parseNumber (c # rest) of
              None \<Rightarrow> None
            | Some (t, r) \<Rightarrow> Some (JNumber t, r)))"
| "parseElements 0 cs = None"
| "parseElements (Suc n) cs =
     (case parseValue n cs of
        None \<Rightarrow> None
      | Some (v, r) \<Rightarrow>
          (case skipWs r of
             [] \<Rightarrow> None
           | d # r' \<Rightarrow>
               if d = 0x5D then Some ([v], r')
               else if d = 0x2C then consResult v (parseElements n (skipWs r'))
               else None))"
| "parseMembers 0 cs = None"
| "parseMembers (Suc n) [] = None"
| "parseMembers (Suc n) (q # cs) =
     (if q = 0x22 then
        (case parseChars cs of
           None \<Rightarrow> None
         | Some (k, r) \<Rightarrow>
             (case skipWs r of
                [] \<Rightarrow> None
              | colon # r1 \<Rightarrow>
                  if colon = 0x3A then
                    (case parseValue n (skipWs r1) of
                       None \<Rightarrow> None
                     | Some (v, r2) \<Rightarrow>
                         (case skipWs r2 of
                            [] \<Rightarrow> None
                          | d # r3 \<Rightarrow>
                              if d = 0x7D then Some ([(k, v)], r3)
                              else if d = 0x2C then consResult (k, v) (parseMembers n (skipWs r3))
                              else None))
                  else None))
      else None)"

text \<open>
  \<^verbatim>\<open>JSON.parse(text)\<close>: one value between optional white space, and nothing else.
  Every call of the parsers above consumes a character within two steps, so twice the
  length of the text bounds the nesting of calls (\<open>JSON_parse_fuel\<close> below).
\<close>

definition JSON_parse :: "jsstring \<Rightarrow> json option" where
  "JSON_parse text =
     (case parseValue (2 * length text + 2) (skipWs text) of
        None \<Rightarrow> None
      | Some (v, rest) \<Rightarrow> if skipWs rest = [] then Some v else None)"

subsection \<open>Persistence (lines 16 to 19 and 32 to 34)\<close>

text \<open>
  A medication as a JavaScript object: the properties in the order in which line 100
  creates them, which the spreads of lines 66 and 127 keep. \<open>lastTaken\<close> is a
  string or \<^verbatim>\<open>null\<close>.
\<close>

definition medicationJson :: "Medication \<Rightarrow> json" where
  "medicationJson med =
     JObject
       [(lit ''id'', JString (med_id med)),
        (lit ''name'', JString (name med)),
        (lit ''dosage'', JString (dosage med)),
        (lit ''frequency'', JString (frequency med)),
        (lit ''time'', JString (time med)),
        (lit ''lastTaken'', (case lastTaken med of None \<Rightarrow> JNull | Some d \<Rightarrow> JString d)),
        (lit ''missed'', JBool (missed med))]"

definition medicationsJson :: "Medication list \<Rightarrow> json" where
  "medicationsJson meds = JArray (map medicationJson meds)"

text \<open>\<^verbatim>\<open>localStorage\<close>: strings under string keys.\<close>

type_synonym storage = "jsstring \<rightharpoonup> jsstring"

definition storageKey :: jsstring where
  "storageKey = lit ''medications''"

text \<open>
  The effect of lines 32 to 34: the whole collection is written under the key. The write
  is taken to succeed; a full or disabled storage is outside the model.
\<close>

definition saveMedications :: "Medication list \<Rightarrow> storage \<Rightarrow> storage" where
  "saveMedications meds store = store(storageKey \<mapsto> stringify (medicationsJson meds))"

text \<open>
  The initialiser of lines 16 to 19. \<^verbatim>\<open>getItem\<close> yields \<^verbatim>\<open>null\<close> for an absent
  key; \<^verbatim>\<open>null\<close> and the empty string are falsy and give the empty array. Any other
  text goes to \<^verbatim>\<open>JSON.parse\<close>, and nothing catches what it throws.
\<close>

definition initialMedications :: "storage \<Rightarrow> error + json" where
  "initialMedications store =
     (case store storageKey of
        None \<Rightarrow> Inr (JArray [])
      | Some saved \<Rightarrow>
          if saved = [] then Inr (JArray [])
          else (case JSON_parse saved of
                  None \<Rightarrow> Inl SyntaxError
                | Some v \<Rightarrow> Inr v))"

text \<open>
  The type annotation \<^verbatim>\<open>useState<Medication[]>\<close> is erased at run time and no code
  checks the parsed value. \<open>asMedications\<close> reads a value at that type: an array of
  objects whose seven properties have the types of the interface. A later member with
  the same key overwrites an earlier one, as in \<^verbatim>\<open>JSON.parse\<close>.
\<close>

definition getProp :: "(jsstring \<times> json) list \<Rightarrow> string \<Rightarrow> json option" where
  "getProp ms key = map_of (rev ms) (lit key)"

fun asString :: "json \<Rightarrow> jsstring option" where
  "asString (JString s) = Some s"
| "asString _ = None"

fun asNullableString :: "json \<Rightarrow> jsstring option option" where
  "asNullableString JNull = Some None"
| "asNullableString (JString s) = Some (Some s)"
| "asNullableString _ = None"

fun asBoolean :: "json \<Rightarrow> bool option" where
  "asBoolean (JBool b) = Some b"
| "asBoolean _ = None"

fun asMedication :: "json \<Rightarrow> Medication option" where
  "asMedication (JObject ms) =
     Option.bind (Option.bind (getProp ms ''id'') asString) (\<lambda>i.
     Option.bind (Option.bind (getProp ms ''name'') asString) (\<lambda>n.
     Option.bind (Option.bind (getProp ms ''dosage'') asString) (\<lambda>d.
     Option.bind (Option.bind (getProp ms ''frequency'') asString) (\<lambda>f.
     Option.bind (Option.bind (getProp ms ''time'') asString) (\<lambda>t.
     Option.bind (Option.bind (getProp ms ''lastTaken'') asNullableString) (\<lambda>l.
     Option.bind (Option.bind (getProp ms ''missed'') asBoolean) (\<lambda>b.
       Some \<lparr>med_id = i, name = n, dosage = d, frequency = f, time = t,
             lastTaken = l, missed = b\<rparr>)))))))"
| "asMedication _ = None"

fun asMedications :: "json \<Rightarrow> Medication list option" where
  "asMedications (JArray vs) = those (map asMedication vs)"
| "asMedications _ = None"

text \<open>
  Two measures for the proof that parsing inverts serialising: the values without
  numbers, which are the values of medications, and a bound on the nested calls the
  parser makes on the text of a value.
\<close>

fun plain :: "json \<Rightarrow> bool" where
  "plain JNull = True"
| "plain (JBool b) = True"
| "plain (JNumber t) = False"
| "plain (JString s) = True"
| "plain (JArray vs) = (\<forall>v \<in> set vs. plain v)"
| "plain (JObject ms) = (\<forall>(k, v) \<in> set ms. plain v)"

fun fuelFor :: "json \<Rightarrow> nat" where
  "fuelFor (JArray vs) = Suc (sum_list (map (\<lambda>v. Suc (fuelFor v)) vs))"
| "fuelFor (JObject ms) = Suc (sum_list (map (\<lambda>(k, v). Suc (fuelFor v)) ms))"
| "fuelFor v = Suc 0"

definition memberText :: "jsstring \<times> json \<Rightarrow> jsstring" where
  "memberText m = quoteJSONString (fst m) @ 0x3A # stringify (snd m)"

subsection \<open>The vocabulary of the specification\<close>

text \<open>
  The condition of line 52, built from the computations of the checker, as a predicate
  on a clock reading and a medication.
\<close>

definition dueAndUnconfirmed :: "Date \<Rightarrow> Medication \<Rightarrow> bool" where
  "dueAndUnconfirmed now med =
     (num_ge (currentTime now) (medicationTime med)
      \<and> lastTaken med \<noteq> Some (toLocaleDateString now)
      \<and> \<not> missed med)"




text \<open>
  The four operations of the store. \<open>AddMedication\<close> carries the content of the form
  at the moment it is submitted. Each operation runs at a clock reading.
\<close>

datatype operation =
    AddMedication NewMedication
  | DeleteMedication jsstring
  | TakeMedication jsstring
  | CheckDue

fun applyOperation :: "Date \<Rightarrow> operation \<Rightarrow> AppState \<Rightarrow> AppState" where
  "applyOperation now (AddMedication form) st = snd (handleAddMedication now (st\<lparr>newMedication := form\<rparr>))"
| "applyOperation now (DeleteMedication i) st = handleDeleteMedication i st"
| "applyOperation now (TakeMedication i) st = handleTakeMedication now i st"
| "applyOperation now CheckDue st = checkMedications now st"

fun run :: "(Date \<times> operation) list \<Rightarrow> AppState \<Rightarrow> AppState" where
  "run [] st = st"
| "run ((now, op) # ops) st = run ops (applyOperation now op st)"

text \<open>
  The invariant the data model states for \<open>missed\<close>, read at a clock reading: a
  flagged medication was not taken today and its time of day has come.
\<close>

definition missedOnlyIfDue :: "Date \<Rightarrow> AppState \<Rightarrow> bool" where
  "missedOnlyIfDue now st =
     list_all (\<lambda>med. missed med \<longrightarrow>
                      lastTaken med \<noteq> Some (toLocaleDateString now)
                      \<and> num_ge (currentTime now) (medicationTime med))
              (medications st)"

subsection \<open>Concrete states and clock readings\<close>

definition emptyState :: AppState where
  "emptyState = \<lparr>medications = [], newMedication = emptyForm, showForm = False, notifications = []\<rparr>"

definition aspirinForm :: NewMedication where
  "aspirinForm =
     \<lparr>form_name = lit ''Aspirin'', form_dosage = lit ''100mg'',
      form_frequency = lit ''daily'', form_time = lit ''08:00''\<rparr>"

definition aspirin :: Medication where
  "aspirin =
     \<lparr>med_id = lit ''1700000000000'', name = lit ''Aspirin'', dosage = lit ''100mg'',
      frequency = lit ''daily'', time = lit ''08:00'', lastTaken = None, missed = False\<rparr>"

definition aspirinPlus :: Medication where
  "aspirinPlus =
     \<lparr>med_id = lit ''1700000000001'', name = lit ''Aspirin Plus'', dosage = lit ''50mg'',
      frequency = lit ''daily'', time = lit ''09:30'', lastTaken = None, missed = False\<rparr>"

definition ibuprofen :: Medication where
  "ibuprofen =
     \<lparr>med_id = lit ''1700000000002'', name = lit ''Ibuprofen'', dosage = lit ''200mg'',
      frequency = lit ''weekly'', time = lit ''21:00'', lastTaken = None, missed = False\<rparr>"

text \<open>A clock reading: milliseconds since the epoch, local date, hour and minute.\<close>

definition reading :: "int \<Rightarrow> string \<Rightarrow> nat \<Rightarrow> nat \<Rightarrow> Date" where
  "reading ms d h m = \<lparr>now_ms = ms, getHours = h, getMinutes = m, toLocaleDateString = lit d\<rparr>"

definition threeMeds :: AppState where
  "threeMeds =
     \<lparr>medications = [aspirin, aspirinPlus, ibuprofen], newMedication = emptyForm,
      showForm = False, notifications = []\<rparr>"

text \<open>Readings of one day, the second of November 2026, and of the morning after.\<close>

definition at0759 :: Date where
  "at0759 = reading 1793606340000 ''11/2/2026'' 7 59"

definition at0801 :: Date where
  "at0801 = reading 1793606460000 ''11/2/2026'' 8 1"

definition at0900 :: Date where
  "at0900 = reading 1793610000000 ''11/2/2026'' 9 0"

definition nextDay0700 :: Date where
  "nextDay0700 = reading 1793689200000 ''11/3/2026'' 7 0"





definition ibuprofenForm :: NewMedication where
  "ibuprofenForm =
     \<lparr>form_name = lit ''Ibuprofen'', form_dosage = lit ''200mg'',
      form_frequency = lit ''daily'', form_time = lit ''08:30''\<rparr>"

text \<open>Two medications added at one clock reading, then flagged by the checker.\<close>

definition twins :: AppState where
  "twins =
     run [(at0759, AddMedication aspirinForm), (at0759, AddMedication ibuprofenForm),
          (at0900, CheckDue)] emptyState"

definition bannered :: AppState where
  "bannered = threeMeds\<lparr>notifications :=
      [lit ''Time to take Aspirin (100mg)'', lit ''Time to take Ibuprofen (200mg)'',
       lit ''Time to take Aspirin Plus (50mg)'']\<rparr>"

definition blankDosage :: AppState where
  "blankDosage = threeMeds\<lparr>newMedication := aspirinForm\<lparr>form_dosage := []\<rparr>\<rparr>"

definition onceAdded :: AppState where
  "onceAdded = snd (handleAddMedication at0801 (emptyState\<lparr>newMedication := aspirinForm\<rparr>))"

definition addedAndChecked :: AppState where
  "addedAndChecked = run [(at0759, AddMedication aspirinForm), (at0801, CheckDue)] emptyState"

text \<open>The inverse of \<open>toString\<close>, used to show that it is injective.\<close>

definition ofString :: "jsstring \<Rightarrow> int" where
  "ofString s =
     (case s of
        [] \<Rightarrow> 0
      | c # cs \<Rightarrow> if c = 0x2D then - digitsValue cs else digitsValue s)"

definition refilled :: AppState where
  "refilled = onceAdded\<lparr>newMedication := aspirinForm\<rparr>"

text \<open>A name with a quote, a line feed, a control character and an unpaired surrogate.\<close>

definition oddName :: Medication where
  "oddName = aspirin\<lparr>name := [0x41, 0x22, 0x0A, 0x01, 0xD800, 0x5C], lastTaken := Some (lit ''11/2/2026''),
                     missed := True\<rparr>"

text \<open>A write of the collection that was cut after twenty code units.\<close>

definition truncatedStore :: storage where
  "truncatedStore = Map.empty(storageKey \<mapsto> take 20 (stringify (medicationsJson [aspirin])))"

section \<open>Properties\<close>

subsection \<open>Times of day\<close>
















subsection \<open>The checker as a map and a filter\<close>

text \<open>
  The loop of the checker flags exactly the medications that satisfy the condition of
  line 52 and appends their reminder texts, in the order of the collection.
\<close>

lemma checkAll_eq:
  "checkAll now meds ns =
     (map (\<lambda>med. if dueAndUnconfirmed now med then med\<lparr>missed := True\<rparr> else med) meds,
      ns @ map reminderText (filter (dueAndUnconfirmed now) meds))"
  by (induction meds arbitrary: ns)
     (simp_all add: checkMedication_def dueAndUnconfirmed_def Let_def)

lemma medications_checkMedications:
  "medications (checkMedications now st) =
     map (\<lambda>med. if dueAndUnconfirmed now med then med\<lparr>missed := True\<rparr> else med) (medications st)"
  by (simp add: checkMedications_def checkAll_eq)

lemma notifications_checkMedications:
  "notifications (checkMedications now st) =
     notifications st @ map reminderText (filter (dueAndUnconfirmed now) (medications st))"
  by (simp add: checkMedications_def checkAll_eq)



text \<open>
  C10. The checker keeps the length and the order of the collection, and of every
  medication the id, name, dosage, frequency, time and date last taken; a \<open>missed\<close>
  flag that was set stays set.
\<close>

theorem checkMedications_frame:
  assumes "k < length (medications st)"
  shows "length (medications (checkMedications now st)) = length (medications st)
     \<and> med_id (medications (checkMedications now st) ! k) = med_id (medications st ! k)
     \<and> name (medications (checkMedications now st) ! k) = name (medications st ! k)
     \<and> dosage (medications (checkMedications now st) ! k) = dosage (medications st ! k)
     \<and> frequency (medications (checkMedications now st) ! k) = frequency (medications st ! k)
     \<and> time (medications (checkMedications now st) ! k) = time (medications st ! k)
     \<and> lastTaken (medications (checkMedications now st) ! k) = lastTaken (medications st ! k)
     \<and> (missed (medications st ! k) \<longrightarrow> missed (medications (checkMedications now st) ! k))"
  using assms by (simp add: medications_checkMedications)

theorem checkMedications_frame_witness:
  "(0::nat) < length (medications threeMeds)
   \<and> length (medications (checkMedications at0801 threeMeds)) = 3
   \<and> med_id (medications (checkMedications at0801 threeMeds) ! 0) = lit ''1700000000000''
   \<and> lastTaken (medications (checkMedications at0801 threeMeds) ! 0) = None"
proof -
  have h: "(0::nat) < length (medications threeMeds)"
    by (simp add: threeMeds_def)
  have m: "medications threeMeds ! 0 = aspirin" "length (medications threeMeds) = 3"
    by (simp_all add: threeMeds_def)
  show ?thesis
    using checkMedications_frame [OF h, of at0801] h
    by (simp add: m aspirin_def)
qed

text \<open>
  C4. Two runs of the checker, at any two clock readings and with nothing in between:
  the banners the second run appends come only from medications the first run did not
  notify. In general a medication whose \<open>missed\<close> flag is set is returned as it is
  and adds no banner. This holds for all readings, in particular for two readings of one
  day in order.
\<close>

theorem checkMedications_twice:
  "notifications (checkMedications now2 (checkMedications now1 st)) =
     notifications (checkMedications now1 st)
       @ map reminderText (filter (\<lambda>med. \<not> dueAndUnconfirmed now1 med \<and> dueAndUnconfirmed now2 med)
                                 (medications st))
   \<and> checkMedication now (med\<lparr>missed := True\<rparr>) ns = (med\<lparr>missed := True\<rparr>, ns)"
proof -
  have flagged: "\<not> dueAndUnconfirmed now2 (m\<lparr>missed := True\<rparr>)" for m
    by (simp add: dueAndUnconfirmed_def)
  have "map reminderText (filter (dueAndUnconfirmed now2)
          (map (\<lambda>med. if dueAndUnconfirmed now1 med then med\<lparr>missed := True\<rparr> else med) meds))
        = map reminderText (filter (\<lambda>med. \<not> dueAndUnconfirmed now1 med \<and> dueAndUnconfirmed now2 med) meds)"
    for meds
    by (induction meds) (simp_all add: flagged)
  then show ?thesis
    by (simp add: notifications_checkMedications medications_checkMedications checkMedication_def)
qed

text \<open>
  C5. Taking the medications with an id and then running the checker at a reading of the
  same calendar day: the entries with that id have \<open>missed\<close> false and the date of
  the day as \<open>lastTaken\<close>, and the checker appends banners only for entries with
  another id.
\<close>

theorem take_then_check:
  assumes "toLocaleDateString t = toLocaleDateString now"
  shows "medications (checkMedications now (handleTakeMedication t i st)) =
           map (\<lambda>med. if med_id med = i
                       then med\<lparr>lastTaken := Some (toLocaleDateString now), missed := False\<rparr>
                       else if dueAndUnconfirmed now med then med\<lparr>missed := True\<rparr> else med)
               (medications st)
     \<and> notifications (checkMedications now (handleTakeMedication t i st)) =
           notifications (handleTakeMedication t i st)
             @ map reminderText (filter (\<lambda>med. med_id med \<noteq> i \<and> dueAndUnconfirmed now med)
                                       (medications st))"
proof -
  let ?taken = "\<lambda>med. if med_id med = i
                       then med\<lparr>lastTaken := Some (toLocaleDateString now), missed := False\<rparr>
                       else med"
  have meds: "medications (handleTakeMedication t i st) = map ?taken (medications st)"
    using assms by (simp add: handleTakeMedication_def Let_def)
  have notdue: "\<not> dueAndUnconfirmed now (med\<lparr>lastTaken := Some (toLocaleDateString now), missed := False\<rparr>)"
    for med
    by (simp add: dueAndUnconfirmed_def)
  have "filter (dueAndUnconfirmed now) (map ?taken meds)
        = filter (\<lambda>med. med_id med \<noteq> i \<and> dueAndUnconfirmed now med) meds" for meds
    by (induction meds) (simp_all add: notdue)
  moreover have "map (\<lambda>med. if dueAndUnconfirmed now med then med\<lparr>missed := True\<rparr> else med) (map ?taken meds)
        = map (\<lambda>med. if med_id med = i
                       then med\<lparr>lastTaken := Some (toLocaleDateString now), missed := False\<rparr>
                       else if dueAndUnconfirmed now med then med\<lparr>missed := True\<rparr> else med) meds"
    for meds
    by (induction meds) (simp_all add: notdue)
  ultimately show ?thesis
    by (simp add: medications_checkMedications notifications_checkMedications meds)
qed

theorem take_then_check_witness:
  "toLocaleDateString at0801 = toLocaleDateString at0900
   \<and> medications (checkMedications at0900 (handleTakeMedication at0801 (lit ''1700000000000'') bannered))
       = [aspirin\<lparr>lastTaken := Some (lit ''11/2/2026''), missed := False\<rparr>, aspirinPlus, ibuprofen]
   \<and> notifications (checkMedications at0900 (handleTakeMedication at0801 (lit ''1700000000000'') bannered))
       = notifications (handleTakeMedication at0801 (lit ''1700000000000'') bannered)"
proof -
  have h: "toLocaleDateString at0801 = toLocaleDateString at0900"
    by (simp add: at0801_def at0900_def reading_def)
  have d: "toLocaleDateString at0900 = lit ''11/2/2026''"
    by (simp add: at0900_def reading_def)
  have m: "medications bannered = [aspirin, aspirinPlus, ibuprofen]"
    by (simp add: bannered_def threeMeds_def)
  have i: "med_id aspirin = lit ''1700000000000''" "med_id aspirinPlus \<noteq> lit ''1700000000000''"
    "med_id ibuprofen \<noteq> lit ''1700000000000''"
    by code_simp+
  have n: "\<not> dueAndUnconfirmed at0900 aspirinPlus" "\<not> dueAndUnconfirmed at0900 ibuprofen"
    by code_simp+
  show ?thesis
    using take_then_check [OF h, of "lit ''1700000000000''" bannered] h
    by (simp add: d m i n)
qed

text \<open>
  C7. Submitting the form with an empty name or an empty dosage yields the validation
  error and the state as it was: the collection, the form and the banners are untouched.
\<close>

theorem handleAddMedication_rejects_empty:
  assumes "form_name (newMedication st) = [] \<or> form_dosage (newMedication st) = []"
  shows "handleAddMedication now st = (Inl ValidationError, st)"
  using assms by (simp add: handleAddMedication_def Let_def)

theorem handleAddMedication_rejects_empty_witness:
  "(form_name (newMedication blankDosage) = [] \<or> form_dosage (newMedication blankDosage) = [])
   \<and> handleAddMedication at0900 blankDosage = (Inl ValidationError, blankDosage)"
proof -
  have h: "form_name (newMedication blankDosage) = [] \<or> form_dosage (newMedication blankDosage) = []"
    by (simp add: blankDosage_def)
  show ?thesis
    using handleAddMedication_rejects_empty [OF h, of at0900] h by simp
qed

subsection \<open>Substring search\<close>

lemma startsWith_iff: "startsWith hay needle \<longleftrightarrow> (\<exists>post. hay = needle @ post)"
  by (induction hay needle rule: startsWith.induct) auto

lemma includesStr_iff: "includesStr hay needle \<longleftrightarrow> (\<exists>pre post. hay = pre @ needle @ post)"
proof (induction hay)
  case Nil
  then show ?case by simp
next
  case (Cons h hs)
  show ?case
  proof
    assume "includesStr (h # hs) needle"
    then consider "startsWith (h # hs) needle" | "includesStr hs needle" by auto
    then show "\<exists>pre post. h # hs = pre @ needle @ post"
    proof cases
      case 1
      then obtain post where "h # hs = needle @ post" by (auto simp: startsWith_iff)
      then have "h # hs = [] @ needle @ post" by simp
      then show ?thesis by blast
    next
      case 2
      with Cons.IH obtain pre post where "hs = pre @ needle @ post" by blast
      then have "h # hs = (h # pre) @ needle @ post" by simp
      then show ?thesis by blast
    qed
  next
    assume "\<exists>pre post. h # hs = pre @ needle @ post"
    then obtain pre post where eq: "h # hs = pre @ needle @ post" by blast
    show "includesStr (h # hs) needle"
    proof (cases pre)
      case Nil
      with eq have "startsWith (h # hs) needle" by (auto simp: startsWith_iff)
      then show ?thesis by simp
    next
      case (Cons p ps)
      with eq have "hs = ps @ needle @ post" by simp
      with Cons.IH have "includesStr hs needle" by blast
      then show ?thesis by simp
    qed
  qed
qed

text \<open>
  Where ids are unique, the entry that \<^verbatim>\<open>find\<close> yields for the id of a medication
  of the collection is that medication.
\<close>

lemma find_unique_id:
  assumes "distinct (map med_id meds)" and "m \<in> set meds"
  shows "find (\<lambda>med. med_id med = med_id m) meds = Some m"
  using assms by (induction meds) (auto simp: image_iff)

text \<open>
  C9, as stated, fails for a medication that shares its id with an earlier one: the
  banners are filtered by the name of the first entry with the id. Aspirin and
  Ibuprofen, added at one clock reading, have the same id; taking that id marks both as
  taken but removes only the banner of Aspirin, and the banner that contains the name of
  Ibuprofen stays.
\<close>

theorem handleTakeMedication_second_entry_counterexample:
  "med_id (medications twins ! 0) = lit ''1793606340000''
   \<and> med_id (medications twins ! 1) = lit ''1793606340000''
   \<and> name (medications twins ! 1) = lit ''Ibuprofen''
   \<and> notifications twins =
       [lit ''Time to take Aspirin (100mg)'', lit ''Time to take Ibuprofen (200mg)'']
   \<and> includesStr (lit ''Time to take Ibuprofen (200mg)'') (name (medications twins ! 1))
   \<and> lastTaken (medications (handleTakeMedication at0900 (lit ''1793606340000'') twins) ! 1)
       = Some (lit ''11/2/2026'')
   \<and> notifications (handleTakeMedication at0900 (lit ''1793606340000'') twins) =
       [lit ''Time to take Ibuprofen (200mg)'']"
  by code_simp

text \<open>
  C9, amended. When the collection has an entry with the id, taking it keeps exactly the
  banners whose text does not contain the name of the first entry with that id, the one
  \<^verbatim>\<open>find\<close> yields: every banner containing that name as a substring goes,
  whichever medication it was emitted for, and every other banner stays, in order. Where
  ids are unique, that entry is the medication with the id.
\<close>

theorem handleTakeMedication_removes_banners:
  assumes "find (\<lambda>med. med_id med = i) (medications st) = Some m"
  shows "notifications (handleTakeMedication now i st) =
           filter (\<lambda>note. \<not> includesStr note (name m)) (notifications st)
     \<and> (includesStr note (name m) \<longleftrightarrow> (\<exists>pre post. note = pre @ name m @ post))
     \<and> (distinct (map med_id (medications st)) \<and> m' \<in> set (medications st) \<and> med_id m' = i
          \<longrightarrow> m' = m)"
proof -
  have "m' = m"
    if "distinct (map med_id (medications st))" "m' \<in> set (medications st)" "med_id m' = i"
    using find_unique_id [OF that(1,2)] assms that(3) by simp
  with assms show ?thesis
    by (simp add: handleTakeMedication_def Let_def includesStr_iff)
qed

theorem handleTakeMedication_removes_banners_witness:
  "find (\<lambda>med. med_id med = lit ''1700000000000'') (medications bannered) = Some aspirin
   \<and> notifications (handleTakeMedication at0900 (lit ''1700000000000'') bannered) =
       [lit ''Time to take Ibuprofen (200mg)'']"
proof -
  have h: "find (\<lambda>med. med_id med = lit ''1700000000000'') (medications bannered) = Some aspirin"
    by code_simp
  have f: "filter (\<lambda>note. \<not> includesStr note (name aspirin)) (notifications bannered)
           = [lit ''Time to take Ibuprofen (200mg)'']"
    by code_simp
  show ?thesis
    using handleTakeMedication_removes_banners [OF h, of at0900, THEN conjunct1] h f by simp
qed

subsection \<open>Identifiers\<close>

text \<open>
  \<open>toString\<close> has a left inverse, so two clock readings give the same id only when
  they are the same millisecond.
\<close>

lemma digitsValue_snoc: "digitsValue (s @ [c]) = digitsValue s * 10 + (uint c - 48)"
  by (simp add: digitsValue_def)

lemma uint_digit: "0 \<le> d \<Longrightarrow> d < 10 \<Longrightarrow> uint (word_of_int (48 + d) :: jschar) = 48 + d"
proof -
  assume "0 \<le> d" "d < 10"
  then have "(48 + d) mod 2 ^ LENGTH(16) = 48 + d" by simp
  then show ?thesis by (simp only: uint_word_of_int)
qed

lemma digitsValue_digitsOf: "0 \<le> n \<Longrightarrow> digitsValue (digitsOf n) = n"
proof (induction n rule: digitsOf.induct)
  case (1 n)
  show ?case
  proof (cases "n < 10")
    case True
    with "1.prems" show ?thesis
      by (subst digitsOf.simps) (simp add: digitsValue_def uint_digit del: of_int_add)
  next
    case False
    with "1.IH" "1.prems" have "digitsValue (digitsOf (n div 10)) = n div 10" by simp
    with False "1.prems" show ?thesis
      by (subst digitsOf.simps) (simp add: digitsValue_snoc uint_digit del: of_int_add)
  qed
qed

lemma hd_digitsOf: "0 \<le> n \<Longrightarrow> digitsOf n \<noteq> [] \<and> hd (digitsOf n) \<noteq> 0x2D"
proof (induction n rule: digitsOf.induct)
  case (1 n)
  show ?case
  proof (cases "n < 10")
    case True
    have "(word_of_int (48 + n) :: jschar) \<noteq> 0x2D"
    proof
      assume "(word_of_int (48 + n) :: jschar) = 0x2D"
      then have "uint (word_of_int (48 + n) :: jschar) = uint (0x2D :: jschar)" by (simp only:)
      with True "1.prems" show False by (simp add: uint_digit del: of_int_add)
    qed
    with True show ?thesis
      by (subst digitsOf.simps, subst (2) digitsOf.simps) simp
  next
    case False
    with "1.IH" "1.prems" have "digitsOf (n div 10) \<noteq> [] \<and> hd (digitsOf (n div 10)) \<noteq> 0x2D" by simp
    with False show ?thesis
      by (subst digitsOf.simps, subst (2) digitsOf.simps) simp
  qed
qed

lemma ofString_toString: "ofString (toString i) = i"
proof (cases "i < 0")
  case True
  then have "digitsValue (digitsOf (- i)) = - i"
    by (intro digitsValue_digitsOf) simp
  moreover have "ofString (0x2D # digitsOf (- i)) = - digitsValue (digitsOf (- i))"
    by (simp add: ofString_def)
  moreover from True have "toString i = 0x2D # digitsOf (- i)"
    by (simp add: toString_def)
  ultimately show ?thesis by simp
next
  case False
  then obtain c cs where eq: "digitsOf i = c # cs" and c: "c \<noteq> 0x2D"
    using hd_digitsOf [of i] by (cases "digitsOf i") auto
  have "digitsValue (c # cs) = i"
    using digitsValue_digitsOf [of i] False by (simp add: eq)
  moreover from c have "ofString (c # cs) = digitsValue (c # cs)"
    by (simp add: ofString_def)
  moreover from False have "toString i = c # cs"
    by (simp add: toString_def eq)
  ultimately show ?thesis by simp
qed

lemma toString_inj: "toString i = toString j \<longleftrightarrow> i = j"
  using ofString_toString by metis

text \<open>
  C6, as stated, fails: the id is the decimal string of the clock reading and nothing
  compares it with the ids in the collection. Submitting the form twice at one
  millisecond reading gives the second entry the id of the first.
\<close>

theorem handleAddMedication_fresh_id_counterexample:
  "form_name (newMedication refilled) \<noteq> []
   \<and> form_dosage (newMedication refilled) \<noteq> []
   \<and> medications refilled = [newMed at0801 aspirinForm]
   \<and> fst (handleAddMedication at0801 refilled) = Inr (newMed at0801 aspirinForm)
   \<and> med_id (newMed at0801 aspirinForm) = med_id (medications refilled ! 0)"
  by code_simp

text \<open>
  C6, amended. Submitting a form with a non-empty name and a non-empty dosage returns a
  medication with \<open>lastTaken\<close> null and \<open>missed\<close> false, appended at the end of
  the collection, whose other entries stay as they were; its id is the decimal string
  of the millisecond clock reading, and it differs from every id in the collection when
  those ids are the decimal strings of other readings.
\<close>

theorem handleAddMedication_appends:
  assumes "form_name (newMedication st) \<noteq> []" and "form_dosage (newMedication st) \<noteq> []"
  shows "fst (handleAddMedication now st) = Inr (newMed now (newMedication st))
     \<and> medications (snd (handleAddMedication now st)) =
         medications st @ [newMed now (newMedication st)]
     \<and> lastTaken (newMed now (newMedication st)) = None
     \<and> missed (newMed now (newMedication st)) = False
     \<and> med_id (newMed now (newMedication st)) = toString (now_ms now)
     \<and> (map med_id (medications st) = map toString earlier \<and> now_ms now \<notin> set earlier
          \<longrightarrow> med_id (newMed now (newMedication st)) \<notin> set (map med_id (medications st)))"
proof -
  have "toString (now_ms now) \<notin> set (map toString earlier)" if "now_ms now \<notin> set earlier"
    using that by (auto simp: toString_inj)
  with assms show ?thesis
    by (auto simp: handleAddMedication_def Let_def newMed_def)
qed

theorem handleAddMedication_appends_witness:
  "fst (handleAddMedication at0900 refilled) = Inr (newMed at0900 aspirinForm)
   \<and> medications (snd (handleAddMedication at0900 refilled)) =
       [newMed at0801 aspirinForm, newMed at0900 aspirinForm]
   \<and> med_id (newMed at0900 aspirinForm) = lit ''1793610000000''
   \<and> med_id (newMed at0900 aspirinForm) \<notin> set (map med_id (medications refilled))"
proof -
  have f: "newMedication refilled = aspirinForm"
    by (simp add: refilled_def)
  have h1: "form_name (newMedication refilled) \<noteq> []"
    and h2: "form_dosage (newMedication refilled) \<noteq> []"
    by code_simp+
  have m: "medications refilled = [newMed at0801 aspirinForm]"
    by code_simp
  have e: "map med_id (medications refilled) = map toString [now_ms at0801]
           \<and> now_ms at0900 \<notin> set [now_ms at0801]"
    by code_simp
  have s: "toString (now_ms at0900) = lit ''1793610000000''"
    by code_simp
  note T = handleAddMedication_appends [OF h1 h2, of at0900 "[now_ms at0801]", unfolded f]
  from T e have a: "med_id (newMed at0900 aspirinForm) \<notin> set (map med_id (medications refilled))"
    by blast
  from T have b: "fst (handleAddMedication at0900 refilled) = Inr (newMed at0900 aspirinForm)"
    by blast
  from T have "medications (snd (handleAddMedication at0900 refilled)) =
      medications refilled @ [newMed at0900 aspirinForm]"
    by blast
  with m have c: "medications (snd (handleAddMedication at0900 refilled)) =
      [newMed at0801 aspirinForm, newMed at0900 aspirinForm]"
    by simp
  from T have "med_id (newMed at0900 aspirinForm) = toString (now_ms at0900)"
    by blast
  with s have d: "med_id (newMed at0900 aspirinForm) = lit ''1793610000000''"
    by simp
  from a b c d show ?thesis by blast
qed

subsection \<open>The invariant of the missed flag\<close>

text \<open>
  C3, as stated, fails: nothing clears a flag when the day changes. A medication due at
  08:00, added at 07:59 and flagged by the checker at 08:01, is still flagged at 07:00
  of the next day, when its time of day has not come.
\<close>

theorem missed_invariant_counterexample:
  "medications addedAndChecked = [(newMed at0759 aspirinForm)\<lparr>missed := True\<rparr>]
   \<and> missed (medications addedAndChecked ! 0)
   \<and> currentTime nextDay0700 = Finite 420
   \<and> medicationTime (medications addedAndChecked ! 0) = Finite 480
   \<and> \<not> num_ge (currentTime nextDay0700) (medicationTime (medications addedAndChecked ! 0))
   \<and> \<not> missedOnlyIfDue nextDay0700 addedAndChecked"
  by code_simp

lemma num_ge_trans: "num_ge a b \<Longrightarrow> num_ge b c \<Longrightarrow> num_ge a c"
  by (cases a; cases b; cases c) simp_all

lemma medicationTime_missed_update:
  "medicationTime (med\<lparr>missed := b\<rparr>) = medicationTime med"
  by (simp add: medicationTime_def)

lemma missedOnlyIfDue_iff:
  "missedOnlyIfDue now st \<longleftrightarrow>
     (\<forall>med \<in> set (medications st). missed med \<longrightarrow>
        lastTaken med \<noteq> Some (toLocaleDateString now)
        \<and> num_ge (currentTime now) (medicationTime med))"
  by (simp add: missedOnlyIfDue_def list_all_iff)

lemma applyOperation_keeps_invariant:
  assumes inv: "missedOnlyIfDue now st"
    and day: "toLocaleDateString t = toLocaleDateString now"
    and later: "num_ge (currentTime now) (currentTime t)"
  shows "missedOnlyIfDue now (applyOperation t op st)"
proof (cases op)
  case (AddMedication form)
  with inv show ?thesis
    by (auto simp: missedOnlyIfDue_iff handleAddMedication_def Let_def newMed_def)
next
  case (DeleteMedication i)
  with inv show ?thesis
    by (auto simp: missedOnlyIfDue_iff handleDeleteMedication_def)
next
  case (TakeMedication i)
  with inv show ?thesis
    by (auto simp: missedOnlyIfDue_iff handleTakeMedication_def Let_def split: if_splits)
next
  case CheckDue
  have "lastTaken med \<noteq> Some (toLocaleDateString now)
        \<and> num_ge (currentTime now) (medicationTime med)"
    if "dueAndUnconfirmed t med" for med
    using that day num_ge_trans [OF later] by (simp add: dueAndUnconfirmed_def)
  with inv CheckDue show ?thesis
    by (auto simp: missedOnlyIfDue_iff medications_checkMedications medicationTime_missed_update
             split: if_splits)
qed

text \<open>
  C3, amended. Let the property hold at a clock reading \<open>now\<close> in some state, for
  instance one with no flagged medication such as the empty collection. After any
  sequence of add, delete, take and check operations, each run at a reading of the
  calendar day of \<open>now\<close> whose time of day is not after that of \<open>now\<close>, every
  medication with \<open>missed\<close> true has a \<open>lastTaken\<close> other than the date of
  \<open>now\<close> and a time of day that \<open>now\<close> has reached.
\<close>

theorem missed_invariant_within_day:
  assumes "missedOnlyIfDue now st"
    and "\<forall>(t, op) \<in> set ops.
           toLocaleDateString t = toLocaleDateString now
           \<and> num_ge (currentTime now) (currentTime t)"
  shows "\<forall>med \<in> set (medications (run ops st)).
           missed med \<longrightarrow>
             lastTaken med \<noteq> Some (toLocaleDateString now)
             \<and> num_ge (currentTime now) (medicationTime med)"
proof -
  from assms have "missedOnlyIfDue now (run ops st)"
  proof (induction ops arbitrary: st)
    case Nil
    then show ?case by simp
  next
    case (Cons x ops)
    obtain t op where x: "x = (t, op)" by (cases x)
    with Cons.prems have "missedOnlyIfDue now (applyOperation t op st)"
      by (intro applyOperation_keeps_invariant) simp_all
    with Cons.IH Cons.prems x show ?case by simp
  qed
  then show ?thesis by (simp add: missedOnlyIfDue_iff)
qed

theorem missed_invariant_within_day_witness:
  "missed (medications addedAndChecked ! 0)
   \<and> lastTaken (medications addedAndChecked ! 0) \<noteq> Some (toLocaleDateString at0900)
   \<and> num_ge (currentTime at0900) (medicationTime (medications addedAndChecked ! 0))"
proof -
  have h1: "missedOnlyIfDue at0900 emptyState"
    by code_simp
  have h2: "\<forall>(t, op) \<in> set [(at0759, AddMedication aspirinForm), (at0801, CheckDue)].
              toLocaleDateString t = toLocaleDateString at0900
              \<and> num_ge (currentTime at0900) (currentTime t)"
    by code_simp
  have m: "medications addedAndChecked ! 0 \<in> set (medications addedAndChecked)"
    and f: "missed (medications addedAndChecked ! 0)"
    by code_simp+
  from missed_invariant_within_day [OF h1 h2] m f show ?thesis
    unfolding addedAndChecked_def by blast
qed

subsection \<open>Parsing inverts serialising: strings\<close>

text \<open>
  The four hexadecimal digits of an escape decode to the code unit they were written
  for, and the characters of a quoted string parse back to the string.
\<close>

lemma hexValue_hexDigit:
  assumes "0 \<le> n" "n < 16"
  shows "hexValue (hexDigit n) = Some n"
proof (cases "n < 10")
  case True
  with assms have "(48 + n) mod 2 ^ LENGTH(16) = 48 + n" by simp
  then have "uint (word_of_int (48 + n) :: jschar) = 48 + n"
    by (simp only: uint_word_of_int)
  with True assms show ?thesis
    by (simp add: hexValue_def hexDigit_def Let_def del: of_int_add)
next
  case False
  with assms have "(87 + n) mod 2 ^ LENGTH(16) = 87 + n" by simp
  then have "uint (word_of_int (87 + n) :: jschar) = 87 + n"
    by (simp only: uint_word_of_int)
  with False assms show ?thesis
    by (simp add: hexValue_def hexDigit_def Let_def del: of_int_add)
qed

lemma hex4_unicodeEscape:
  "unicodeEscape c = [0x5C, 0x75, h1, h2, h3, h4] \<Longrightarrow> hex4 h1 h2 h3 h4 = Some c"
proof -
  assume a: "unicodeEscape c = [0x5C, 0x75, h1, h2, h3, h4]"
  define n where "n = uint c"
  have n: "0 \<le> n" "n < 65536"
    using uint_lt2p [of c] by (simp_all add: n_def)
  from a have h: "h1 = hexDigit (n div 4096)" "h2 = hexDigit (n div 256 mod 16)"
    "h3 = hexDigit (n div 16 mod 16)" "h4 = hexDigit (n mod 16)"
    by (simp_all add: unicodeEscape_def Let_def n_def)
  from n have v: "hexValue h1 = Some (n div 4096)" "hexValue h2 = Some (n div 256 mod 16)"
    "hexValue h3 = Some (n div 16 mod 16)" "hexValue h4 = Some (n mod 16)"
    unfolding h by (simp_all add: hexValue_hexDigit)
  have d1: "n = 16 * (n div 16) + n mod 16"
    and d2: "n div 16 = 16 * (n div 16 div 16) + n div 16 mod 16"
    and d3: "n div 256 = 16 * (n div 256 div 16) + n div 256 mod 16"
    by simp_all
  have "n div 16 div 16 = n div 256" and "n div 256 div 16 = n div 4096"
    by (simp_all add: div_mult2_eq [symmetric])
  with d1 d2 d3
  have "4096 * (n div 4096) + 256 * (n div 256 mod 16) + 16 * (n div 16 mod 16) + n mod 16 = n"
    by linarith
  then show ?thesis
    by (simp add: hex4_def v n_def)
qed

lemma parseChars_unicodeEscape:
  "parseChars (unicodeEscape c @ after) = consResult c (parseChars after)"
proof -
  obtain h1 h2 h3 h4 where u: "unicodeEscape c = [0x5C, 0x75, h1, h2, h3, h4]"
    by (simp add: unicodeEscape_def Let_def)
  from hex4_unicodeEscape [OF u] show ?thesis
    by (simp add: u)
qed

lemma parseChars_quoteUnit:
  "parseChars (quoteUnit c @ after) = consResult c (parseChars after)"
proof -
  consider (short) "c \<in> {0x08, 0x09, 0x0A, 0x0C, 0x0D, 0x22, 0x5C}"
    | (long) "c \<notin> {0x08, 0x09, 0x0A, 0x0C, 0x0D, 0x22, 0x5C}"
        "c < 0x20 \<or> isLeadSurrogate c \<or> isTrailSurrogate c"
    | (plain) "c \<notin> {0x08, 0x09, 0x0A, 0x0C, 0x0D, 0x22, 0x5C}"
        "\<not> (c < 0x20 \<or> isLeadSurrogate c \<or> isTrailSurrogate c)"
    by blast
  then show ?thesis
  proof cases
    case short
    then show ?thesis
      by (auto simp: quoteUnit_def escapeValue_def)
  next
    case long
    then have "quoteUnit c = unicodeEscape c"
      by (simp add: quoteUnit_def)
    then show ?thesis
      by (simp only: parseChars_unicodeEscape)
  next
    case plain
    then have "quoteUnit c = [c]"
      by (simp add: quoteUnit_def)
    with plain show ?thesis
      by simp
  qed
qed

lemma surrogate_is_plain:
  assumes "isLeadSurrogate c \<or> isTrailSurrogate c"
  shows "c \<noteq> 0x22 \<and> c \<noteq> 0x5C \<and> \<not> c < 0x20"
proof -
  have "0xD800 \<le> c"
  proof (cases "isLeadSurrogate c")
    case True
    then show ?thesis by (simp add: isLeadSurrogate_def)
  next
    case False
    with assms have "0xDC00 \<le> c" by (simp add: isTrailSurrogate_def)
    moreover have "(0xD800 :: jschar) \<le> 0xDC00" by simp
    ultimately show ?thesis by (rule order_trans [rotated])
  qed
  have "c \<noteq> 0x22"
  proof
    assume "c = 0x22"
    with \<open>0xD800 \<le> c\<close> have "(0xD800 :: jschar) \<le> 0x22" by simp
    then show False by simp
  qed
  moreover have "c \<noteq> 0x5C"
  proof
    assume "c = 0x5C"
    with \<open>0xD800 \<le> c\<close> have "(0xD800 :: jschar) \<le> 0x5C" by simp
    then show False by simp
  qed
  moreover have "\<not> c < 0x20"
  proof
    assume "c < 0x20"
    with \<open>0xD800 \<le> c\<close> have "(0xD800 :: jschar) < 0x20" by (rule order.strict_trans1)
    then show False by simp
  qed
  ultimately show ?thesis by blast
qed

lemma parseChars_quoteBody:
  "parseChars (quoteBody s @ 0x22 # rest) = Some (s, rest)"
proof (induction s rule: quoteBody.induct)
  case 1
  show ?case by simp
next
  case (2 c)
  show ?case
    by (simp add: parseChars_quoteUnit consResult_def)
next
  case (3 c d cs)
  show ?case
  proof (cases "isLeadSurrogate c \<and> isTrailSurrogate d")
    case True
    with "3.IH"(1) surrogate_is_plain [of c] surrogate_is_plain [of d] show ?thesis
      by (simp add: consResult_def)
  next
    case False
    then have "quoteBody (c # d # cs) @ 0x22 # rest =
        quoteUnit c @ (quoteBody (d # cs) @ 0x22 # rest)"
      by auto
    moreover from False "3.IH"(2)
    have "parseChars (quoteBody (d # cs) @ 0x22 # rest) = Some (d # cs, rest)"
      by blast
    ultimately show ?thesis
      by (simp only: parseChars_quoteUnit) (simp add: consResult_def)
  qed
qed

subsection \<open>Parsing inverts serialising: values\<close>

text \<open>
  The text of a value without numbers parses back to the value, whatever follows it, as
  soon as the bound on nested calls is at least \<open>fuelFor\<close>; and \<open>fuelFor\<close> is
  at most the length of the text.
\<close>

lemma join_Cons: "xs \<noteq> [] \<Longrightarrow> join sep (x # xs) = x @ sep # join sep xs"
  by (cases xs) simp_all

lemma length_join: "length (join sep xs) = sum_list (map length xs) + (length xs - 1)"
  by (induction sep xs rule: join.induct) simp_all

lemma stringify_head:
  assumes "plain v"
  shows "\<exists>d r. stringify v = d # r \<and> d \<in> {0x6E, 0x74, 0x66, 0x22, 0x5B, 0x7B}"
  using assms by (cases v) (simp_all add: lit_def quoteJSONString_def)

lemma skipWs_stringify:
  assumes "plain v"
  shows "skipWs (stringify v @ after) = stringify v @ after"
proof -
  from stringify_head [OF assms] obtain d r where
    "stringify v = d # r" "d \<in> {0x6E, 0x74, 0x66, 0x22, 0x5B, 0x7B}" by blast
  then show ?thesis
    by (auto simp: skipWs_def isWhitespace_def)
qed

lemma not_closing_stringify:
  assumes "plain v"
  shows "\<not> startsWith (stringify v @ after) [0x5D]"
proof -
  from stringify_head [OF assms] obtain d r where
    "stringify v = d # r" "d \<in> {0x6E, 0x74, 0x66, 0x22, 0x5B, 0x7B}" by blast
  then show ?thesis
    by auto
qed

lemma skipWs_cons:
  "\<not> isWhitespace c \<Longrightarrow> skipWs (c # cs) = c # cs"
  by (simp add: skipWs_def)

lemma parseLiteral_exact:
  "parseLiteral w v (lit w @ after) = Some (v, after)"
proof -
  have "startsWith (xs @ after) xs" for xs :: jsstring
    by (induction xs) simp_all
  then show ?thesis
    by (simp add: parseLiteral_def lit_def)
qed

lemma parseValue_leaf:
  "parseValue (Suc n) (stringify JNull @ after) = Some (JNull, after)"
  "parseValue (Suc n) (stringify (JBool b) @ after) = Some (JBool b, after)"
  "parseValue (Suc n) (stringify (JString s) @ after) = Some (JString s, after)"
proof -
  have "parseValue (Suc n) (lit ''null'' @ after) = parseLiteral ''null'' JNull (lit ''null'' @ after)"
    by (simp add: lit_def)
  then show "parseValue (Suc n) (stringify JNull @ after) = Some (JNull, after)"
    by (simp only: parseLiteral_exact stringify.simps)
  have "parseValue (Suc n) (lit ''true'' @ after) = parseLiteral ''true'' (JBool True) (lit ''true'' @ after)"
    by (simp add: lit_def)
  moreover
  have "parseValue (Suc n) (lit ''false'' @ after) = parseLiteral ''false'' (JBool False) (lit ''false'' @ after)"
    by (simp add: lit_def)
  ultimately show "parseValue (Suc n) (stringify (JBool b) @ after) = Some (JBool b, after)"
    by (cases b) (simp_all only: parseLiteral_exact stringify.simps if_True if_False)
  show "parseValue (Suc n) (stringify (JString s) @ after) = Some (JString s, after)"
    by (simp add: quoteJSONString_def parseChars_quoteBody)
qed

lemma parseElements_join:
  assumes "vs \<noteq> []"
    and "\<And>v n after. v \<in> set vs \<Longrightarrow> fuelFor v \<le> n \<Longrightarrow>
           parseValue n (stringify v @ after) = Some (v, after)"
    and "\<forall>v \<in> set vs. plain v"
    and "sum_list (map (\<lambda>v. Suc (fuelFor v)) vs) \<le> n"
  shows "parseElements n (join 0x2C (map stringify vs) @ 0x5D # rest) = Some (vs, rest)"
  using assms
proof (induction vs arbitrary: n rule: list_nonempty_induct)
  case (single v)
  then obtain n' where n: "n = Suc n'" "fuelFor v \<le> n'"
    by (cases n) simp_all
  with single.prems(1) [of v n' "0x5D # rest"] show ?case
    by (simp add: skipWs_def isWhitespace_def)
next
  case (cons v vs)
  then obtain n' where n: "n = Suc n'" "fuelFor v \<le> n'"
    "sum_list (map (\<lambda>v. Suc (fuelFor v)) vs) \<le> n'"
    by (cases n) simp_all
  let ?tail = "join 0x2C (map stringify vs) @ 0x5D # rest"
  have first: "parseValue n' (stringify v @ 0x2C # ?tail) = Some (v, 0x2C # ?tail)"
    using cons.prems(1) [of v n'] n by simp
  have "parseElements n' ?tail = Some (vs, rest)"
    using cons.IH [of n'] cons.prems n by simp
  moreover have "skipWs ?tail = ?tail"
  proof -
    from cons.hyps obtain w ws where vs: "vs = w # ws" by (cases vs) auto
    with cons.prems have "plain w" by simp
    from skipWs_stringify [OF this] show ?thesis
      by (cases ws) (simp_all add: vs)
  qed
  moreover have "join 0x2C (map stringify (v # vs)) @ 0x5D # rest = stringify v @ 0x2C # ?tail"
    using cons.hyps by (simp add: join_Cons)
  ultimately show ?case
    using first by (simp add: n skipWs_def isWhitespace_def consResult_def)
qed

lemma memberText_eq: "(\<lambda>(k, v). quoteJSONString k @ 0x3A # stringify v) = memberText"
  by (auto simp: memberText_def fun_eq_iff)

lemma memberText_head: "memberText m @ after = 0x22 # quoteBody (fst m) @ 0x22 # 0x3A # stringify (snd m) @ after"
  by (simp add: memberText_def quoteJSONString_def)

lemma parseMembers_join:
  assumes "ms \<noteq> []"
    and "\<And>k v n after. (k, v) \<in> set ms \<Longrightarrow> fuelFor v \<le> n \<Longrightarrow>
           parseValue n (stringify v @ after) = Some (v, after)"
    and "\<forall>(k, v) \<in> set ms. plain v"
    and "sum_list (map (\<lambda>(k, v). Suc (fuelFor v)) ms) \<le> n"
  shows "parseMembers n (join 0x2C (map memberText ms) @ 0x7D # rest) = Some (ms, rest)"
  using assms
proof (induction ms arbitrary: n rule: list_nonempty_induct)
  case (single m)
  obtain k v where m: "m = (k, v)" by (cases m)
  with single obtain n' where n: "n = Suc n'" "fuelFor v \<le> n'"
    by (cases n) simp_all
  from single.prems(2) m have "plain v" by simp
  from single.prems(1) [of k v n' "0x7D # rest"] m n
  have "parseValue n' (stringify v @ 0x7D # rest) = Some (v, 0x7D # rest)" by simp
  with skipWs_stringify [OF \<open>plain v\<close>, of "0x7D # rest"] show ?case
    by (simp add: m n memberText_head parseChars_quoteBody skipWs_def isWhitespace_def)
next
  case (cons m ms)
  obtain k v where m: "m = (k, v)" by (cases m)
  with cons obtain n' where n: "n = Suc n'" "fuelFor v \<le> n'"
    "sum_list (map (\<lambda>(k, v). Suc (fuelFor v)) ms) \<le> n'"
    by (cases n) simp_all
  from cons.prems(2) m have "plain v" by simp
  let ?tail = "join 0x2C (map memberText ms) @ 0x7D # rest"
  have first: "parseValue n' (stringify v @ 0x2C # ?tail) = Some (v, 0x2C # ?tail)"
    using cons.prems(1) [of k v n'] n m by simp
  have rest: "parseMembers n' ?tail = Some (ms, rest)"
  proof (rule cons.IH)
    show "parseValue j (stringify w @ after) = Some (w, after)"
      if "(l, w) \<in> set ms" "fuelFor w \<le> j" for l w j after
      using that cons.prems(1) [of l w j after] by simp
    show "\<forall>(k, v) \<in> set ms. plain v"
      using cons.prems(2) by simp
    show "sum_list (map (\<lambda>(k, v). Suc (fuelFor v)) ms) \<le> n'"
      by (rule n)
  qed
  have skip: "skipWs ?tail = ?tail"
  proof -
    from cons.hyps obtain w ws where ms: "ms = w # ws" by (cases ms) auto
    show ?thesis
      by (cases ws) (simp_all add: ms memberText_head skipWs_def isWhitespace_def)
  qed
  have "join 0x2C (map memberText (m # ms)) @ 0x7D # rest = memberText m @ 0x2C # ?tail"
    using cons.hyps by (simp add: join_Cons)
  then show ?case
    using first rest skip skipWs_stringify [OF \<open>plain v\<close>, of "0x2C # ?tail"]
    by (simp add: m n memberText_head parseChars_quoteBody skipWs_cons isWhitespace_def
        consResult_def)
qed

lemma parseValue_stringify:
  "plain v \<Longrightarrow> fuelFor v \<le> n \<Longrightarrow> parseValue n (stringify v @ after) = Some (v, after)"
proof (induction v arbitrary: n after)
  case JNull
  then show ?case by (cases n) (simp_all only: parseValue_leaf, simp)
next
  case (JBool b)
  then show ?case by (cases n) (simp_all only: parseValue_leaf, simp)
next
  case (JNumber t)
  then show ?case by simp
next
  case (JString s)
  then show ?case by (cases n) (simp_all only: parseValue_leaf, simp)
next
  case (JArray vs)
  from JArray.prems obtain n' where n: "n = Suc n'"
    "sum_list (map (\<lambda>v. Suc (fuelFor v)) vs) \<le> n'"
    by (cases n) simp_all
  show ?case
  proof (cases "vs = []")
    case True
    then show ?thesis
      by (simp add: n skipWs_def isWhitespace_def)
  next
    case False
    let ?body = "join 0x2C (map stringify vs) @ 0x5D # after"
    have "parseElements n' ?body = Some (vs, after)"
      using False JArray.IH JArray.prems n by (intro parseElements_join) simp_all
    moreover from False obtain w ws where vs: "vs = w # ws" by (cases vs) auto
    with JArray.prems have "plain w" by simp
    have "skipWs ?body = ?body" "\<not> startsWith ?body [0x5D]"
      using skipWs_stringify [OF \<open>plain w\<close>] not_closing_stringify [OF \<open>plain w\<close>]
      by (cases ws; simp add: vs)+
    ultimately show ?thesis
      by (simp add: n)
  qed
next
  case (JObject ms)
  from JObject.prems obtain n' where n: "n = Suc n'"
    "sum_list (map (\<lambda>(k, v). Suc (fuelFor v)) ms) \<le> n'"
    by (cases n) simp_all
  show ?case
  proof (cases "ms = []")
    case True
    then show ?thesis
      by (simp add: n skipWs_def isWhitespace_def)
  next
    case False
    let ?body = "join 0x2C (map memberText ms) @ 0x7D # after"
    have "parseMembers n' ?body = Some (ms, after)"
      using False JObject.prems n
    proof (intro parseMembers_join)
      fix k v n after
      assume "(k, v) \<in> set ms" "fuelFor v \<le> n"
      moreover from this JObject.prems have "plain v" by auto
      ultimately show "parseValue n (stringify v @ after) = Some (v, after)"
        using JObject.IH [of "(k, v)" v n after] by simp
    qed simp_all
    moreover from False obtain w ws where ms: "ms = w # ws" by (cases ms) auto
    have "skipWs ?body = ?body" "\<not> startsWith ?body [0x7D]"
      by (cases ws; simp add: ms memberText_head skipWs_def isWhitespace_def)+
    ultimately show ?thesis
      by (simp add: n memberText_eq)
  qed
qed

lemma fuel_elements:
  assumes "\<forall>v \<in> set vs. fuelFor v \<le> length (stringify v)"
  shows "sum_list (map (\<lambda>v. Suc (fuelFor v)) vs) \<le> Suc (length (join sep (map stringify vs)))"
  using assms by (induction vs rule: induct_list012) simp_all

lemma fuel_members:
  assumes "\<forall>(k, v) \<in> set ms. fuelFor v \<le> length (stringify v)"
  shows "sum_list (map (\<lambda>(k, v). Suc (fuelFor v)) ms) \<le> Suc (length (join sep (map memberText ms)))"
  using assms by (induction ms rule: induct_list012) (auto simp: memberText_def)

lemma fuelFor_le_length:
  "plain v \<Longrightarrow> fuelFor v \<le> length (stringify v)"
proof (induction v)
  case (JArray vs)
  then have "\<forall>v \<in> set vs. fuelFor v \<le> length (stringify v)" by simp
  from fuel_elements [OF this, of "0x2C"] show ?case by simp
next
  case (JObject ms)
  then have "\<forall>(k, v) \<in> set ms. fuelFor v \<le> length (stringify v)" by fastforce
  from fuel_members [OF this, of "0x2C"] show ?case by (simp add: memberText_eq)
qed (simp_all add: lit_def quoteJSONString_def)

lemma JSON_parse_stringify:
  assumes "plain v"
  shows "JSON_parse (stringify v) = Some v"
proof -
  from fuelFor_le_length [OF assms]
  have "fuelFor v \<le> 2 * length (stringify v) + 2" by simp
  from parseValue_stringify [OF assms this, of "[]"]
  show ?thesis
    using skipWs_stringify [OF assms, of "[]"]
    by (simp add: JSON_parse_def skipWs_def)
qed

subsection \<open>The bound on nested calls\<close>

text \<open>
  Every parser returns less text than it was given. So the bound that
  \<open>JSON_parse\<close> starts from is never the reason for a \<open>None\<close>: with that
  bound or any larger one the parsers give the same result.
\<close>

lemma length_skipWs: "length (skipWs cs) \<le> length cs"
  by (simp add: skipWs_def length_dropWhile_le)

lemma consResult_Some:
  "consResult x r = Some (ys, rest) \<longleftrightarrow> (\<exists>xs. r = Some (xs, rest) \<and> ys = x # xs)"
  by (auto simp: consResult_def split: option.splits)

lemma parseChars_shorter:
  "parseChars cs = Some (s, r) \<Longrightarrow> length r < length cs"
proof (induction cs arbitrary: s r rule: parseChars.induct)
  case 1
  then show ?case by simp
next
  case (2 c cs)
  show ?case
  proof (cases "c = 0x22")
    case True
    with "2.prems" show ?thesis by simp
  next
    case notq: False
    show ?thesis
    proof (cases "c = 0x5C")
      case True
      with notq "2.prems" obtain e es where cs: "cs = e # es"
        by (cases cs) auto
      show ?thesis
      proof (cases "e = 0x75")
        case True
        with notq \<open>c = 0x5C\<close> cs "2.prems" obtain h1 h2 h3 h4 rest u s' where
          es: "es = h1 # h2 # h3 # h4 # rest" and "hex4 h1 h2 h3 h4 = Some u"
          and "parseChars rest = Some (s', r)"
          by (auto simp: consResult_Some split: list.splits option.splits)
        with "2.IH"(1) [OF notq \<open>c = 0x5C\<close> cs True es] have "length r < length rest"
          by simp
        with cs es show ?thesis by simp
      next
        case False
        with notq \<open>c = 0x5C\<close> cs "2.prems" obtain u s' where
          "escapeValue e = Some u" and "parseChars es = Some (s', r)"
          by (auto simp: consResult_Some split: option.splits)
        with "2.IH"(2) [OF notq \<open>c = 0x5C\<close> cs False] have "length r < length es"
          by simp
        with cs show ?thesis by simp
      qed
    next
      case False
      with notq "2.prems" obtain s' where "\<not> c < 0x20" "parseChars cs = Some (s', r)"
        by (auto simp: consResult_Some split: if_splits)
      with "2.IH"(3) [OF notq False] have "length r < length cs" by simp
      then show ?thesis by simp
    qed
  qed
qed

lemma digits1_shorter: "digits1 cs = Some (ds, r) \<Longrightarrow> length r < length cs"
proof -
  assume a: "digits1 cs = Some (ds, r)"
  then have "takeWhile isDigit cs \<noteq> []" and r: "r = dropWhile isDigit cs"
    by (auto simp: digits1_def split: list.splits)
  then have "0 < length (takeWhile isDigit cs)"
    by simp
  moreover have "length (takeWhile isDigit cs) + length (dropWhile isDigit cs) = length cs"
    by (metis length_append takeWhile_dropWhile_id)
  ultimately have "length (dropWhile isDigit cs) < length cs"
    by linarith
  with r show ?thesis by (simp only:)
qed

lemma parseInt_shorter: "parseInt cs = Some (ds, r) \<Longrightarrow> length r < length cs"
  by (cases cs) (auto simp: parseInt_def dest: digits1_shorter split: if_splits)

lemma parseFrac_shorter: "parseFrac cs = Some (ds, r) \<Longrightarrow> length r \<le> length cs"
  by (cases cs) (auto simp: parseFrac_def dest!: digits1_shorter split: if_splits option.splits)

lemma parseExp_shorter: "parseExp cs = Some (ds, r) \<Longrightarrow> length r \<le> length cs"
  by (cases cs)
     (auto simp: parseExp_def dest!: digits1_shorter split: if_splits option.splits list.splits)

lemma parseNumber_shorter: "parseNumber cs = Some (t, r) \<Longrightarrow> length r < length cs"
proof -
  assume a: "parseNumber cs = Some (t, r)"
  define r0 where "r0 = (case cs of c # rest \<Rightarrow> if c = 0x2D then rest else cs | [] \<Rightarrow> cs)"
  have r0: "length r0 \<le> length cs"
    by (cases cs) (simp_all add: r0_def)
  from a obtain i r1 f r2 e where "parseInt r0 = Some (i, r1)" "parseFrac r1 = Some (f, r2)"
    "parseExp r2 = Some (e, r)"
    by (cases cs) (auto simp: parseNumber_def r0_def split: if_splits option.splits)
  then have "length r1 < length r0" "length r2 \<le> length r1" "length r \<le> length r2"
    by (auto dest: parseInt_shorter parseFrac_shorter parseExp_shorter)
  with r0 show ?thesis by simp
qed

lemma startsWith_length: "startsWith hay needle \<Longrightarrow> length needle \<le> length hay"
  by (induction hay needle rule: startsWith.induct) simp_all

lemma parseLiteral_shorter:
  assumes "parseLiteral w v cs = Some (x, r)" and "w \<noteq> []"
  shows "length r < length cs"
proof -
  from assms(1) have "startsWith cs (lit w)" and r: "r = drop (length w) cs"
    by (auto simp: parseLiteral_def split: if_splits)
  from startsWith_length [OF this(1)] have "length w \<le> length cs"
    by (simp add: lit_def)
  moreover from assms(2) have "0 < length w"
    by simp
  ultimately have "length cs - length w < length cs"
    by linarith
  with r show ?thesis by simp
qed

lemma remainder_shorter:
  "parseValue n cs = Some (v, r) \<Longrightarrow> length r < length cs"
  "parseElements n cs = Some (vs, r) \<Longrightarrow> length r < length cs"
  "parseMembers n cs = Some (ms, r) \<Longrightarrow> length r < length cs"
proof (induction n cs and n cs and n cs arbitrary: v r and vs r and ms r
    rule: parseValue_parseElements_parseMembers.induct)
  case (1 cs)
  then show ?case by simp
next
  case (2 n)
  then show ?case by simp
next
  case (3 n c rest)
  note skip = length_skipWs [of rest]
  consider (obj) "c = 0x7B" | (arr) "c \<noteq> 0x7B" "c = 0x5B" | (str) "c \<noteq> 0x7B" "c \<noteq> 0x5B" "c = 0x22"
    | (lit) "c \<noteq> 0x7B" "c \<noteq> 0x5B" "c \<noteq> 0x22" "c = 0x74 \<or> c = 0x66 \<or> c = 0x6E"
    | (num) "c \<noteq> 0x7B" "c \<noteq> 0x5B" "c \<noteq> 0x22" "c \<noteq> 0x74" "c \<noteq> 0x66" "c \<noteq> 0x6E"
    by blast
  then show ?case
  proof cases
    case obj
    show ?thesis
    proof (cases "startsWith (skipWs rest) [0x7D]")
      case True
      with obj "3.prems" have "r = tl (skipWs rest)" "skipWs rest \<noteq> []"
        by (auto simp: Let_def)
      then have "length r < length (skipWs rest)" by (cases "skipWs rest") simp_all
      with skip show ?thesis by simp
    next
      case False
      with obj "3.prems" obtain ms where "parseMembers n (skipWs rest) = Some (ms, r)"
        by (auto simp: Let_def split: option.splits)
      from "3.IH"(1) [OF obj refl False this] skip show ?thesis by simp
    qed
  next
    case arr
    show ?thesis
    proof (cases "startsWith (skipWs rest) [0x5D]")
      case True
      with arr "3.prems" have "r = tl (skipWs rest)" "skipWs rest \<noteq> []"
        by (auto simp: Let_def)
      then have "length r < length (skipWs rest)" by (cases "skipWs rest") simp_all
      with skip show ?thesis by simp
    next
      case False
      with arr "3.prems" obtain vs where "parseElements n (skipWs rest) = Some (vs, r)"
        by (auto simp: Let_def split: option.splits)
      from "3.IH"(2) [OF arr refl False this] skip show ?thesis by simp
    qed
  next
    case str
    with "3.prems" obtain s where "parseChars rest = Some (s, r)"
      by (auto split: option.splits)
    from parseChars_shorter [OF this] show ?thesis by simp
  next
    case lit
    with "3.prems" obtain w x where "parseLiteral w x (c # rest) = Some (v, r)" "w \<noteq> []"
      by (auto split: if_splits)
    from parseLiteral_shorter [OF this] show ?thesis .
  next
    case num
    with "3.prems" obtain t where "parseNumber (c # rest) = Some (t, r)"
      by (auto split: option.splits)
    from parseNumber_shorter [OF this] show ?thesis .
  qed
next
  case (4 cs)
  then show ?case by simp
next
  case (5 n cs)
  from "5.prems" obtain v r1 where v: "parseValue n cs = Some (v, r1)"
    by (auto split: option.splits)
  from "5.IH"(1) [OF this] have r1: "length r1 < length cs" .
  from "5.prems" v obtain d r2 where d: "skipWs r1 = d # r2"
    by (auto split: list.splits)
  with length_skipWs [of r1] have r2: "length r2 < length r1" by simp
  show ?case
  proof (cases "d = 0x5D")
    case True
    with "5.prems" v d have "r = r2" by simp
    with r1 r2 show ?thesis by simp
  next
    case False
    with "5.prems" v d obtain vs' where c: "d = 0x2C"
      and "parseElements n (skipWs r2) = Some (vs', r)"
      by (auto simp: consResult_Some split: if_splits)
    from "5.IH"(2) [OF v refl d False c this(2)] length_skipWs [of r2] r1 r2
    show ?thesis by simp
  qed
next
  case (6 cs)
  then show ?case by simp
next
  case (7 n)
  then show ?case by simp
next
  case (8 n q cs)
  from "8.prems" have q: "q = 0x22"
    by (auto split: if_splits)
  with "8.prems" obtain k r0 where k: "parseChars cs = Some (k, r0)"
    by (auto split: option.splits)
  from parseChars_shorter [OF this] have r0: "length r0 < length cs" .
  from "8.prems" q k obtain colon r1 where colon: "skipWs r0 = colon # r1" "colon = 0x3A"
    by (auto split: list.splits if_splits)
  with length_skipWs [of r0] have r1: "length r1 < length r0" by simp
  from "8.prems" q k colon obtain w r2 where w: "parseValue n (skipWs r1) = Some (w, r2)"
    by (auto split: option.splits)
  from "8.IH"(1) [OF q k refl colon this] length_skipWs [of r1]
  have r2: "length r2 < length r1" by simp
  from "8.prems" q k colon w obtain d r3 where d: "skipWs r2 = d # r3"
    by (auto split: list.splits)
  with length_skipWs [of r2] have r3: "length r3 < length r2" by simp
  show ?case
  proof (cases "d = 0x7D")
    case True
    with "8.prems" q k colon w d have "r = r3" by simp
    with r0 r1 r2 r3 show ?thesis by simp
  next
    case False
    with "8.prems" q k colon w d obtain ms' where c: "d = 0x2C"
      and "parseMembers n (skipWs r3) = Some (ms', r)"
      by (auto simp: consResult_Some split: if_splits)
    from "8.IH"(2) [OF q k refl colon w refl d False c this(2)] length_skipWs [of r3] r0 r1 r2 r3
    show ?thesis by simp
  qed
qed

lemma fuel_step:
  "2 * length cs + 1 \<le> n \<Longrightarrow> parseValue (Suc n) cs = parseValue n cs"
  "2 * length cs + 2 \<le> n \<Longrightarrow> parseElements (Suc n) cs = parseElements n cs"
  "2 * length cs + 2 \<le> n \<Longrightarrow> parseMembers (Suc n) cs = parseMembers n cs"
proof (induction n cs and n cs and n cs
    rule: parseValue_parseElements_parseMembers.induct)
  case (1 cs)
  then show ?case by simp
next
  case (2 n)
  then show ?case by simp
next
  case (3 n c rest)
  from "3.prems" length_skipWs [of rest] have bound: "2 * length (skipWs rest) + 2 \<le> n"
    by simp
  have obj: "parseMembers (Suc n) (skipWs rest) = parseMembers n (skipWs rest)"
    if "c = 0x7B" "\<not> startsWith (skipWs rest) [0x7D]"
    using "3.IH"(1) [OF that(1) refl that(2) bound] .
  have arr: "parseElements (Suc n) (skipWs rest) = parseElements n (skipWs rest)"
    if "c \<noteq> 0x7B" "c = 0x5B" "\<not> startsWith (skipWs rest) [0x5D]"
    using "3.IH"(2) [OF that(1) that(2) refl that(3) bound] .
  show ?case
    using obj arr by (simp add: Let_def)
next
  case (4 cs)
  then show ?case by simp
next
  case (5 n cs)
  from "5.prems" have "2 * length cs + 1 \<le> n" by simp
  from "5.IH"(1) [OF this] have val: "parseValue (Suc n) cs = parseValue n cs" .
  show ?case
  proof (cases "parseValue n cs")
    case None
    with val show ?thesis by simp
  next
    case (Some x)
    obtain v r1 where x: "x = (v, r1)" by (cases x)
    from remainder_shorter(1) [OF Some [unfolded x]] have r1: "length r1 < length cs" .
    show ?thesis
    proof (cases "skipWs r1")
      case Nil
      with val Some x show ?thesis by simp
    next
      case (Cons d r2)
      with length_skipWs [of r1] have "length r2 < length r1" by simp
      with r1 "5.prems" length_skipWs [of r2] have "2 * length (skipWs r2) + 2 \<le> n"
        by simp
      then have "parseElements (Suc n) (skipWs r2) = parseElements n (skipWs r2)"
        if "d \<noteq> 0x5D" "d = 0x2C"
        using "5.IH"(2) [OF Some x [symmetric] Cons that] by simp
      with val Some x Cons show ?thesis by simp
    qed
  qed
next
  case (6 cs)
  then show ?case by simp
next
  case (7 n)
  then show ?case by simp
next
  case (8 n q cs)
  show ?case
  proof (cases "q = 0x22")
    case False
    then show ?thesis by simp
  next
    case q: True
    show ?thesis
    proof (cases "parseChars cs")
      case None
      with q show ?thesis by simp
    next
      case (Some x)
      obtain k r0 where x: "x = (k, r0)" by (cases x)
      from parseChars_shorter [OF Some [unfolded x]] have r0: "length r0 < length cs" .
      show ?thesis
      proof (cases "skipWs r0")
        case Nil
        with q Some x show ?thesis by simp
      next
        case (Cons colon r1)
        with length_skipWs [of r0] have r1: "length r1 < length r0" by simp
        show ?thesis
        proof (cases "colon = 0x3A")
          case False
          with q Some x Cons show ?thesis by simp
        next
          case colon: True
          from r0 r1 "8.prems" length_skipWs [of r1]
          have "2 * length (skipWs r1) + 1 \<le> n" by simp
          from "8.IH"(1) [OF q Some x [symmetric] Cons colon this]
          have val: "parseValue (Suc n) (skipWs r1) = parseValue n (skipWs r1)" .
          show ?thesis
          proof (cases "parseValue n (skipWs r1)")
            case None
            with q Some x Cons colon val show ?thesis by simp
          next
            case v: (Some y)
            obtain w r2 where y: "y = (w, r2)" by (cases y)
            from remainder_shorter(1) [OF v [unfolded y]] length_skipWs [of r1]
            have r2: "length r2 < length r1" by simp
            show ?thesis
            proof (cases "skipWs r2")
              case Nil
              with q Some x Cons colon val v y show ?thesis by simp
            next
              case d: (Cons d r3)
              with length_skipWs [of r2] have "length r3 < length r2" by simp
              with r0 r1 r2 "8.prems" length_skipWs [of r3]
              have "2 * length (skipWs r3) + 2 \<le> n" by simp
              then have "parseMembers (Suc n) (skipWs r3) = parseMembers n (skipWs r3)"
                if "d \<noteq> 0x7D" "d = 0x2C"
                using "8.IH"(2) [OF q Some x [symmetric] Cons colon v y [symmetric] d that]
                by simp
              with q Some x Cons colon val v y d show ?thesis by simp
            qed
          qed
        qed
      qed
    qed
  qed
qed

lemma fuel_enough:
  assumes "2 * length cs + 1 \<le> n" "n \<le> m"
  shows "parseValue m cs = parseValue n cs"
  using assms(2,1)
proof (induction m rule: dec_induct)
  case base
  show ?case by simp
next
  case (step k)
  then have "2 * length cs + 1 \<le> k" by simp
  from fuel_step(1) [OF this] step show ?case by simp
qed

lemma JSON_parse_fuel:
  assumes "2 * length s + 2 \<le> m"
  shows "parseValue m (skipWs s) = parseValue (2 * length s + 2) (skipWs s)"
  using assms length_skipWs [of s] by (intro fuel_enough) simp_all

subsection \<open>Persistence\<close>

lemma plain_medicationsJson: "plain (medicationsJson meds)"
  by (auto simp: medicationsJson_def medicationJson_def split: option.splits)

lemma asMedication_medicationJson: "asMedication (medicationJson med) = Some med"
  by (cases "lastTaken med") (simp_all add: medicationJson_def getProp_def lit_def)

lemma asMedications_medicationsJson: "asMedications (medicationsJson meds) = Some meds"
  by (induction meds) (simp_all add: medicationsJson_def asMedication_medicationJson)

lemma stringify_nonempty: "stringify (medicationsJson meds) \<noteq> []"
  by (simp add: medicationsJson_def)

text \<open>
  C8. For every collection and every content of the storage: writing the collection as
  the effect of lines 32 to 34 does and then running the initialiser of lines 16 to 19
  yields the value of the collection, and reading that value at the type
  \<^verbatim>\<open>Medication[]\<close> gives the same medications, with every field, in the same order.
\<close>

theorem persist_then_reload:
  "initialMedications (saveMedications meds store) = Inr (medicationsJson meds)
   \<and> asMedications (medicationsJson meds) = Some meds"
  by (simp add: initialMedications_def saveMedications_def stringify_nonempty
      JSON_parse_stringify [OF plain_medicationsJson] asMedications_medicationsJson)

theorem persist_then_reload_witness:
  "initialMedications (saveMedications [oddName, ibuprofen] Map.empty) = Inr (medicationsJson [oddName, ibuprofen])
   \<and> asMedications (medicationsJson [oddName, ibuprofen]) = Some [oddName, ibuprofen]
   \<and> name oddName = [0x41, 0x22, 0x0A, 0x01, 0xD800, 0x5C]"
  using persist_then_reload [of "[oddName, ibuprofen]" Map.empty]
  by (simp add: oddName_def)

text \<open>
  C2, as stated, fails: the initialiser calls \<^verbatim>\<open>JSON.parse\<close> outside any
  \<^verbatim>\<open>try\<close>. When the key holds the first twenty code units of a saved
  collection, the text does not parse and the \<^verbatim>\<open>SyntaxError\<close> leaves the
  initialiser: the component does not start.
\<close>

theorem initialMedications_unparsable_counterexample:
  "truncatedStore storageKey = Some (take 20 (stringify (medicationsJson [aspirin])))
   \<and> take 20 (stringify (medicationsJson [aspirin]))
       = [0x5B, 0x7B, 0x22] @ lit ''id'' @ [0x22, 0x3A, 0x22] @ lit ''170000000000''
   \<and> JSON_parse (take 20 (stringify (medicationsJson [aspirin]))) = None
   \<and> initialMedications truncatedStore = Inl SyntaxError"
  by code_simp

text \<open>
  C2, amended. The initialiser reads the fixed key. It yields the empty collection when
  the key is absent or holds the empty string, the saved collection when the key holds
  the text that saving a collection wrote, and in general the value
  \<^verbatim>\<open>JSON.parse\<close> returns; when the content is not empty and does not parse, the
  \<^verbatim>\<open>SyntaxError\<close> of \<^verbatim>\<open>JSON.parse\<close> propagates.
\<close>

theorem initialMedications_cases:
  "(store storageKey = None \<or> store storageKey = Some [] \<longrightarrow>
      initialMedications store = Inr (JArray []))
   \<and> asMedications (JArray []) = Some []
   \<and> (store storageKey = Some (stringify (medicationsJson meds)) \<longrightarrow>
      initialMedications store = Inr (medicationsJson meds))
   \<and> asMedications (medicationsJson meds) = Some meds
   \<and> (store storageKey = Some saved \<and> saved \<noteq> [] \<and> JSON_parse saved = Some v \<longrightarrow>
      initialMedications store = Inr v)
   \<and> (store storageKey = Some saved \<and> saved \<noteq> [] \<and> JSON_parse saved = None \<longrightarrow>
      initialMedications store = Inl SyntaxError)"
  by (auto simp: initialMedications_def stringify_nonempty
      JSON_parse_stringify [OF plain_medicationsJson] asMedications_medicationsJson)

theorem initialMedications_cases_witness:
  "initialMedications Map.empty = Inr (JArray [])
   \<and> initialMedications (Map.empty(storageKey \<mapsto> [])) = Inr (JArray [])
   \<and> initialMedications (saveMedications [aspirin, aspirinPlus, ibuprofen] Map.empty) = Inr (medicationsJson [aspirin, aspirinPlus, ibuprofen])
   \<and> initialMedications (Map.empty(storageKey \<mapsto> lit '' [ ] '')) = Inr (JArray [])
   \<and> initialMedications truncatedStore = Inl SyntaxError"
proof -
  have a: "initialMedications Map.empty = Inr (JArray [])"
    using initialMedications_cases [of Map.empty] by simp
  have b: "initialMedications (Map.empty(storageKey \<mapsto> [])) = Inr (JArray [])"
    using initialMedications_cases [of "Map.empty(storageKey \<mapsto> [])"] by simp
  have c: "initialMedications (saveMedications [aspirin, aspirinPlus, ibuprofen] Map.empty) = Inr (medicationsJson [aspirin, aspirinPlus, ibuprofen])"
    using initialMedications_cases [of "saveMedications [aspirin, aspirinPlus, ibuprofen] Map.empty" "[aspirin, aspirinPlus, ibuprofen]"]
    by (simp add: saveMedications_def)
  have "JSON_parse (lit '' [ ] '') = Some (JArray [])" "lit '' [ ] '' \<noteq> []"
    by code_simp+
  then have d: "initialMedications (Map.empty(storageKey \<mapsto> lit '' [ ] '')) = Inr (JArray [])"
    using initialMedications_cases [of "Map.empty(storageKey \<mapsto> lit '' [ ] '')" _ "lit '' [ ] ''" "JArray []"]
    by simp
  have "take 20 (stringify (medicationsJson [aspirin])) \<noteq> []"
    "JSON_parse (take 20 (stringify (medicationsJson [aspirin]))) = None"
    by code_simp+
  then have e: "initialMedications truncatedStore = Inl SyntaxError"
    using initialMedications_cases [of truncatedStore _ "take 20 (stringify (medicationsJson [aspirin]))"]
    by (simp add: truncatedStore_def)
  from a b c d e show ?thesis by blast
qed

end
